theory Spec2Isabelle
  imports Main "HOL-Library.Word" "HOL-Library.AList"
begin

section \<open>The value nodes (DataItem and its subclasses)\<close>

text \<open>
  \<^verbatim>\<open>json_item.cpp\<close> is the value handle \<^verbatim>\<open>JsonItem\<close>. The nodes it points to
  (\<^verbatim>\<open>DataItem\<close>, \<^verbatim>\<open>DataValue\<close>, \<^verbatim>\<open>DataObject\<close>, \<^verbatim>\<open>DataArray\<close> of
  \<^verbatim>\<open>data_structure/data_items.h\<close>), the header \<^verbatim>\<open>json_item.h\<close> and the parser are
  not part of the source at hand. The node layer is modelled from sections 3 and 4.1 of
  the specification; every such definition says so.
\<close>

text \<open>Modelled from the spec: the scalar node (class \<^verbatim>\<open>DataValue\<close>), section 3: a Scalar
  is one of String, Integer, Float. \<^verbatim>\<open>int\<close> is 32 bits wide; a \<^verbatim>\<open>float\<close> is kept as
  its 32-bit pattern, since the handle only stores and returns it (\<open>0\<close> is \<^verbatim>\<open>+0.0f\<close>).\<close>

datatype scalar = StringValue string | IntValue "32 word" | FloatValue "32 word"

text \<open>Modelled from the spec: the node (class \<^verbatim>\<open>DataItem\<close>), section 3: a tagged union of
  Object (keys unique, insertion order kept), Array and Scalar, every child owned by
  exactly one parent.\<close>

datatype DataItem =
  DataValue scalar
| DataObject "(string \<times> DataItem) list"
| DataArray "DataItem list"

text \<open>The tags \<^verbatim>\<open>DataItem::VALUE_TYPE\<close>, \<^verbatim>\<open>OBJECT_TYPE\<close>, \<^verbatim>\<open>ARRAY_TYPE\<close> and
  \<^verbatim>\<open>DataItem::INT_TYPE\<close>, \<^verbatim>\<open>FLOAT_TYPE\<close> that the handle compares with.\<close>

datatype dataTypes = VALUE_TYPE | OBJECT_TYPE | ARRAY_TYPE

datatype dataValueTypes = STRING_TYPE | INT_TYPE | FLOAT_TYPE

text \<open>Modelled from the spec: \<^verbatim>\<open>DataItem::getType\<close>, section 4.1: never fails.\<close>

fun getType :: "DataItem \<Rightarrow> dataTypes" where
  "getType (DataValue v) = VALUE_TYPE"
| "getType (DataObject kvs) = OBJECT_TYPE"
| "getType (DataArray xs) = ARRAY_TYPE"

text \<open>Modelled from the spec: the downcasts \<^verbatim>\<open>DataItem::toValue\<close>, \<^verbatim>\<open>toObject\<close> and
  \<^verbatim>\<open>toArray\<close>. A pointer to a \<^verbatim>\<open>DataValue\<close> exists for a scalar node only: for a node
  of another variant the cast has no result (\<open>None\<close>), and the caller that uses the
  result all the same is at fault (in C++: a null pointer or a pointer of the wrong
  dynamic type, both undefined to dereference).\<close>

fun toValue :: "DataItem \<Rightarrow> scalar option" where
  "toValue (DataValue v) = Some v"
| "toValue (DataObject kvs) = None"
| "toValue (DataArray xs) = None"

fun toObject :: "DataItem \<Rightarrow> (string \<times> DataItem) list option" where
  "toObject (DataObject kvs) = Some kvs"
| "toObject (DataValue v) = None"
| "toObject (DataArray xs) = None"

fun toArray :: "DataItem \<Rightarrow> DataItem list option" where
  "toArray (DataArray xs) = Some xs"
| "toArray (DataValue v) = None"
| "toArray (DataObject kvs) = None"

text \<open>Modelled from the spec: \<^verbatim>\<open>DataValue::getValueType\<close>, the scalar's sub-kind.\<close>

fun getValueType :: "scalar \<Rightarrow> dataValueTypes" where
  "getValueType (StringValue s) = STRING_TYPE"
| "getValueType (IntValue i) = INT_TYPE"
| "getValueType (FloatValue f) = FLOAT_TYPE"

text \<open>Modelled from the spec: the scalar accessors \<^verbatim>\<open>toString\<close>, \<^verbatim>\<open>toInt\<close>,
  \<^verbatim>\<open>toFloat\<close>, section 4.1: the stored value if the sub-kind matches, else the
  neutral default (empty string, 0).\<close>

fun toString :: "scalar \<Rightarrow> string" where
  "toString (StringValue s) = s"
| "toString (IntValue i) = ''''"
| "toString (FloatValue f) = ''''"

fun toInt :: "scalar \<Rightarrow> 32 word" where
  "toInt (IntValue i) = i"
| "toInt (StringValue s) = 0"
| "toInt (FloatValue f) = 0"

fun toFloat :: "scalar \<Rightarrow> 32 word" where
  "toFloat (FloatValue f) = f"
| "toFloat (StringValue s) = 0"
| "toFloat (IntValue i) = 0"

text \<open>Modelled from the spec: \<^verbatim>\<open>DataItem::getSize\<close>, section 4.1: Object: key count;
  Array: element count; Scalar: 0.\<close>

fun DataItem_getSize :: "DataItem \<Rightarrow> nat" where
  "DataItem_getSize (DataObject kvs) = length kvs"
| "DataItem_getSize (DataArray xs) = length xs"
| "DataItem_getSize (DataValue v) = 0"

subsection \<open>Children and paths\<close>

text \<open>A child of a node is reached by a key (Object) or by an index (Array).\<close>

datatype step = Key string | Idx nat

text \<open>Modelled from the spec: \<^verbatim>\<open>DataItem::get(key)\<close> and \<^verbatim>\<open>DataItem::get(index)\<close>,
  section 4.1: Object only (Array only); null if absent, \<open>index \<ge> size\<close> or wrong
  variant.\<close>

fun child :: "DataItem \<Rightarrow> step \<Rightarrow> DataItem option" where
  "child (DataObject kvs) (Key k) = map_of kvs k"
| "child (DataArray xs) (Idx i) = (if i < length xs then Some (xs ! i) else None)"
| "child (DataValue v) s = None"
| "child (DataObject kvs) (Idx i) = None"
| "child (DataArray xs) (Key k) = None"

text \<open>Writing a child slot that exists (used to write through a pointer into a tree).\<close>

fun set_child :: "DataItem \<Rightarrow> step \<Rightarrow> DataItem \<Rightarrow> DataItem option" where
  "set_child (DataObject kvs) (Key k) c =
     (if map_of kvs k = None then None else Some (DataObject (AList.update k c kvs)))"
| "set_child (DataArray xs) (Idx i) c =
     (if i < length xs then Some (DataArray (xs[i := c])) else None)"
| "set_child (DataValue v) s c = None"
| "set_child (DataObject kvs) (Idx i) c = None"
| "set_child (DataArray xs) (Key k) c = None"

fun subtree :: "DataItem \<Rightarrow> step list \<Rightarrow> DataItem option" where
  "subtree t [] = Some t"
| "subtree t (s # ss) = (case child t s of None \<Rightarrow> None | Some c \<Rightarrow> subtree c ss)"

fun replace_at :: "DataItem \<Rightarrow> step list \<Rightarrow> DataItem \<Rightarrow> DataItem option" where
  "replace_at t [] n = Some n"
| "replace_at t (s # ss) n =
     (case child t s of
        None \<Rightarrow> None
      | Some c \<Rightarrow> (case replace_at c ss n of None \<Rightarrow> None | Some c' \<Rightarrow> set_child t s c'))"

section \<open>Pointers and the heap\<close>

text \<open>
  A \<^verbatim>\<open>DataItem*\<close> is \<open>None\<close> (\<^verbatim>\<open>nullptr\<close>) or a pointer: the address of the root of
  the tree the node lives in, and the path from that root to the node. A node made by
  \<^verbatim>\<open>new\<close>, \<^verbatim>\<open>copy()\<close> or the parser is the root of a tree of its own, at a fresh
  address; a child handed out by \<^verbatim>\<open>get\<close> shares its parent's root. The heap is the
  list of the roots ever allocated: a cell is \<open>None\<close> once its tree was deleted or
  moved below a parent. Addresses are never reused.
\<close>

datatype ptr = Ptr (ptr_root: nat) (ptr_path: "step list")

type_synonym heap = "DataItem option list"

text \<open>What C++ leaves undefined is a value of the model: a null pointer dereferenced,
  a pointer to a deleted node used, the result of a failed downcast used, a node
  deleted that its parent still owns, a vector indexed beyond its size.\<close>

datatype fault = NullDeref | Dangling | BadCast | BadDelete | OutOfBounds

definition load :: "heap \<Rightarrow> ptr \<Rightarrow> fault + DataItem" where
  "load h p =
     (if ptr_root p < length h then
        (case h ! ptr_root p of
           None \<Rightarrow> Inl Dangling
         | Some t \<Rightarrow> (case subtree t (ptr_path p) of None \<Rightarrow> Inl Dangling | Some n \<Rightarrow> Inr n))
      else Inl Dangling)"

definition store :: "heap \<Rightarrow> ptr \<Rightarrow> DataItem \<Rightarrow> fault + heap" where
  "store h p n =
     (if ptr_root p < length h then
        (case h ! ptr_root p of
           None \<Rightarrow> Inl Dangling
         | Some t \<Rightarrow>
             (case replace_at t (ptr_path p) n of
                None \<Rightarrow> Inl Dangling
              | Some t' \<Rightarrow> Inr (h[ptr_root p := Some t'])))
      else Inl Dangling)"

definition alloc :: "heap \<Rightarrow> DataItem \<Rightarrow> heap \<times> ptr" where
  "alloc h t = (h @ [Some t], Ptr (length h) [])"

text \<open>\<^verbatim>\<open>delete p\<close>: the whole tree below \<open>p\<close> goes. Only a root can be deleted.\<close>

definition delete_node :: "heap \<Rightarrow> ptr \<Rightarrow> fault + heap" where
  "delete_node h p =
     (if ptr_path p \<noteq> [] then Inl BadDelete
      else if ptr_root p < length h \<and> h ! ptr_root p \<noteq> None
        then Inr (h[ptr_root p := None])
      else Inl Dangling)"

text \<open>A parent takes ownership of a node: the node must be the root of its own tree,
  which then stops being one.\<close>

definition take_root :: "heap \<Rightarrow> ptr \<Rightarrow> fault + DataItem \<times> heap" where
  "take_root h q =
     (if ptr_path q \<noteq> [] then Inl BadDelete
      else if ptr_root q < length h then
        (case h ! ptr_root q of
           None \<Rightarrow> Inl Dangling
         | Some c \<Rightarrow> Inr (c, h[ptr_root q := None]))
      else Inl Dangling)"

text \<open>Modelled from the spec: \<^verbatim>\<open>DataItem::copy\<close>, section 4.1: deep copy; the result
  is a fully independent owned tree.\<close>

definition DataItem_copy :: "heap \<Rightarrow> ptr \<Rightarrow> fault + heap \<times> ptr" where
  "DataItem_copy h p = (case load h p of Inl e \<Rightarrow> Inl e | Inr n \<Rightarrow> Inr (alloc h n))"

text \<open>Modelled from the spec: \<^verbatim>\<open>DataItem::get(key)\<close> and \<^verbatim>\<open>get(index)\<close> as pointers:
  the child's pointer, or null.\<close>

definition DataItem_get :: "heap \<Rightarrow> ptr \<Rightarrow> step \<Rightarrow> fault + ptr option" where
  "DataItem_get h p s =
     (case load h p of
        Inl e \<Rightarrow> Inl e
      | Inr n \<Rightarrow>
          Inr (case child n s of
                 None \<Rightarrow> None
               | Some c \<Rightarrow> Some (Ptr (ptr_root p) (ptr_path p @ [s]))))"

text \<open>Modelled from the spec: \<^verbatim>\<open>DataObject::insert(key, node, force)\<close>, section 4.1:
  fails (returns false, no mutation) if the key exists and \<open>force\<close> is false; otherwise
  inserts or overwrites, taking ownership of the node. The node this points to was
  checked to be an Object by the caller.\<close>

definition DataObject_insert ::
  "heap \<Rightarrow> ptr \<Rightarrow> string \<Rightarrow> ptr \<Rightarrow> bool \<Rightarrow> fault + bool \<times> heap" where
  "DataObject_insert h p key q force =
     (case load h p of
        Inl e \<Rightarrow> Inl e
      | Inr n \<Rightarrow>
          (case toObject n of
             None \<Rightarrow> Inl BadCast
           | Some kvs \<Rightarrow>
               if map_of kvs key \<noteq> None \<and> \<not> force then Inr (False, h)
               else
                 (case take_root h q of
                    Inl e \<Rightarrow> Inl e
                  | Inr (c, h1) \<Rightarrow>
                      (case store h1 p (DataObject (AList.update key c kvs)) of
                         Inl e \<Rightarrow> Inl e
                       | Inr h2 \<Rightarrow> Inr (True, h2)))))"

text \<open>Modelled from the spec: \<^verbatim>\<open>DataArray::append(node)\<close>, section 4.1: appends, taking
  ownership.\<close>

definition DataArray_append :: "heap \<Rightarrow> ptr \<Rightarrow> ptr \<Rightarrow> fault + bool \<times> heap" where
  "DataArray_append h p q =
     (case load h p of
        Inl e \<Rightarrow> Inl e
      | Inr n \<Rightarrow>
          (case toArray n of
             None \<Rightarrow> Inl BadCast
           | Some xs \<Rightarrow>
               (case take_root h q of
                  Inl e \<Rightarrow> Inl e
                | Inr (c, h1) \<Rightarrow>
                    (case store h1 p (DataArray (xs @ [c])) of
                       Inl e \<Rightarrow> Inl e
                     | Inr h2 \<Rightarrow> Inr (True, h2)))))"

text \<open>Modelled from the spec: \<^verbatim>\<open>DataItem::remove(key)\<close> and \<^verbatim>\<open>remove(index)\<close>,
  section 4.1: fails if absent, out of range or wrong variant; otherwise destroys and
  removes that entry, shifting array indices down.\<close>

fun remove_child :: "DataItem \<Rightarrow> step \<Rightarrow> DataItem option" where
  "remove_child (DataObject kvs) (Key k) =
     (if map_of kvs k = None then None else Some (DataObject (AList.delete k kvs)))"
| "remove_child (DataArray xs) (Idx i) =
     (if i < length xs then Some (DataArray (take i xs @ drop (Suc i) xs)) else None)"
| "remove_child (DataValue v) s = None"
| "remove_child (DataObject kvs) (Idx i) = None"
| "remove_child (DataArray xs) (Key k) = None"

definition DataItem_remove :: "heap \<Rightarrow> ptr \<Rightarrow> step \<Rightarrow> fault + bool \<times> heap" where
  "DataItem_remove h p s =
     (case load h p of
        Inl e \<Rightarrow> Inl e
      | Inr n \<Rightarrow>
          (case remove_child n s of
             None \<Rightarrow> Inr (False, h)
           | Some n' \<Rightarrow>
               (case store h p n' of Inl e \<Rightarrow> Inl e | Inr h1 \<Rightarrow> Inr (True, h1))))"

text \<open>Modelled from the spec: \<^verbatim>\<open>DataObject::getKeys\<close> and \<^verbatim>\<open>DataObject::contains\<close>
  (sections 3 and 4.2): the keys in insertion order; whether a key is present.\<close>

definition DataObject_getKeys :: "(string \<times> DataItem) list \<Rightarrow> string list" where
  "DataObject_getKeys kvs = map fst kvs"

definition DataObject_contains :: "(string \<times> DataItem) list \<Rightarrow> string \<Rightarrow> bool" where
  "DataObject_contains kvs key = (map_of kvs key \<noteq> None)"

section \<open>The value handle (class JsonItem)\<close>

record JsonItem =
  m_content :: "ptr option"
  m_deletable :: bool

text \<open>Modelled from the spec: the member declarations of \<^verbatim>\<open>json_item.h\<close> (their
  in-class initialisers), section 4.2: a handle is invalid (null content) by default,
  and a handle that copies or builds its content owns it. Several constructors of
  \<^verbatim>\<open>json_item.cpp\<close> assign only one of the two members, or none.\<close>

definition JsonItem_members :: JsonItem where
  "JsonItem_members = \<lparr>m_content = None, m_deletable = True\<rparr>"

text \<open>The scalar operations of \<^verbatim>\<open>DataValue\<close> that the specification leaves open
  (what \<^verbatim>\<open>new DataValue()\<close> holds, and what \<^verbatim>\<open>DataValue::setValue\<close> does to the
  sub-kind) are parameters of the model.\<close>

record DataValue_ops =
  new_DataValue :: scalar
  setValue_string :: "scalar \<Rightarrow> string \<Rightarrow> scalar"
  setValue_int :: "scalar \<Rightarrow> 32 word \<Rightarrow> scalar"
  setValue_float :: "scalar \<Rightarrow> 32 word \<Rightarrow> scalar"

text \<open>The parser \<^verbatim>\<open>JsonParserInterface\<close> is an external collaborator: what it answers
  for an input (the result of \<^verbatim>\<open>parse\<close>, \<^verbatim>\<open>getErrorMessage()\<close>, \<^verbatim>\<open>getOutput()\<close>) is a
  parameter of the model.\<close>

record JsonParserInterface =
  parse_result :: bool
  getErrorMessage :: string
  getOutput :: "DataItem option"

subsection \<open>Constructors\<close>

text \<open>\<^verbatim>\<open>JsonItem::JsonItem()\<close>\<close>

definition JsonItem_ctor :: JsonItem where
  "JsonItem_ctor = JsonItem_members\<lparr>m_content := None, m_deletable := True\<rparr>"

text \<open>\<^verbatim>\<open>JsonItem::JsonItem(const JsonItem &otherItem)\<close>: the content of the other item is
  dereferenced unconditionally.\<close>

definition JsonItem_copy_ctor :: "heap \<Rightarrow> JsonItem \<Rightarrow> fault + heap \<times> JsonItem" where
  "JsonItem_copy_ctor h otherItem =
     (case m_content otherItem of
        None \<Rightarrow> Inl NullDeref
      | Some p \<Rightarrow>
          (case DataItem_copy h p of
             Inl e \<Rightarrow> Inl e
           | Inr (h', q) \<Rightarrow> Inr (h', JsonItem_members\<lparr>m_content := Some q\<rparr>)))"

text \<open>\<^verbatim>\<open>JsonItem::JsonItem(DataItem* dataItem, const bool copy)\<close>\<close>

definition JsonItem_wrap_ctor :: "heap \<Rightarrow> ptr option \<Rightarrow> bool \<Rightarrow> fault + heap \<times> JsonItem" where
  "JsonItem_wrap_ctor h dataItem copy =
     (if copy then
        (case dataItem of
           None \<Rightarrow> Inr (h, JsonItem_members)
         | Some p \<Rightarrow>
             (case DataItem_copy h p of
                Inl e \<Rightarrow> Inl e
              | Inr (h', q) \<Rightarrow> Inr (h', JsonItem_members\<lparr>m_content := Some q\<rparr>)))
      else Inr (h, JsonItem_members\<lparr>m_content := dataItem, m_deletable := False\<rparr>))"

text \<open>\<^verbatim>\<open>JsonItem::JsonItem(const std::string &value)\<close>, \<^verbatim>\<open>JsonItem(const int value)\<close>,
  \<^verbatim>\<open>JsonItem(const float value)\<close>\<close>

definition JsonItem_scalar_ctor :: "heap \<Rightarrow> scalar \<Rightarrow> heap \<times> JsonItem" where
  "JsonItem_scalar_ctor h v =
     (case alloc h (DataValue v) of (h', q) \<Rightarrow> (h', JsonItem_members\<lparr>m_content := Some q\<rparr>))"

definition JsonItem_string_ctor :: "heap \<Rightarrow> string \<Rightarrow> heap \<times> JsonItem" where
  "JsonItem_string_ctor h value = JsonItem_scalar_ctor h (StringValue value)"

definition JsonItem_int_ctor :: "heap \<Rightarrow> 32 word \<Rightarrow> heap \<times> JsonItem" where
  "JsonItem_int_ctor h value = JsonItem_scalar_ctor h (IntValue value)"

definition JsonItem_float_ctor :: "heap \<Rightarrow> 32 word \<Rightarrow> heap \<times> JsonItem" where
  "JsonItem_float_ctor h value = JsonItem_scalar_ctor h (FloatValue value)"

subsection \<open>clear, parse, assignment\<close>

text \<open>\<^verbatim>\<open>JsonItem::clear()\<close>: one guard, \<^verbatim>\<open>m_content != nullptr && m_deletable\<close>, around both
  the \<^verbatim>\<open>delete\<close> and the reset of the pointer.\<close>

definition JsonItem_clear :: "heap \<Rightarrow> JsonItem \<Rightarrow> fault + heap \<times> JsonItem" where
  "JsonItem_clear h this =
     (case m_content this of
        None \<Rightarrow> Inr (h, this)
      | Some p \<Rightarrow>
          if m_deletable this then
            (case delete_node h p of
               Inl e \<Rightarrow> Inl e
             | Inr h' \<Rightarrow> Inr (h', this\<lparr>m_content := None\<rparr>))
          else Inr (h, this))"

text \<open>\<^verbatim>\<open>JsonItem::parse(input, traceParsing)\<close>. The parser has built its output tree when
  \<^verbatim>\<open>parser.parse\<close> returns, before \<^verbatim>\<open>clear()\<close> runs. \<^verbatim>\<open>result.second\<close> is the empty
  string of a default-constructed pair unless the parse fails.\<close>

definition JsonItem_parse ::
  "(bool \<Rightarrow> string \<Rightarrow> JsonParserInterface) \<Rightarrow> heap \<Rightarrow> JsonItem \<Rightarrow> string \<Rightarrow> bool
     \<Rightarrow> fault + (bool \<times> string) \<times> heap \<times> JsonItem" where
  "JsonItem_parse parser_of h this input traceParsing =
     (let parser = parser_of traceParsing input
      in if parse_result parser = False
         then Inr ((False, getErrorMessage parser), h, this)
         else
           (case (case getOutput parser of
                    None \<Rightarrow> (h, None)
                  | Some t \<Rightarrow> (case alloc h t of (h', q) \<Rightarrow> (h', Some q))) of
              (h0, out) \<Rightarrow>
                (case JsonItem_clear h0 this of
                   Inl e \<Rightarrow> Inl e
                 | Inr (h1, this1) \<Rightarrow> Inr ((True, []), h1, this1\<lparr>m_content := out\<rparr>))))"

text \<open>\<^verbatim>\<open>JsonItem::operator=(const JsonItem &other)\<close>. The guard \<^verbatim>\<open>this != &other\<close>
  compares the addresses of two handle objects, so here the handles live in a store
  \<open>objs\<close> and the operation takes their addresses; \<^verbatim>\<open>other.m_content\<close> is read after
  \<^verbatim>\<open>clear()\<close> has run. \<^verbatim>\<open>m_deletable\<close> is not assigned.\<close>

definition JsonItem_assign ::
  "heap \<Rightarrow> (nat \<Rightarrow> JsonItem) \<Rightarrow> nat \<Rightarrow> nat \<Rightarrow> fault + heap \<times> (nat \<Rightarrow> JsonItem)" where
  "JsonItem_assign h objs this other =
     (if this \<noteq> other then
        (case JsonItem_clear h (objs this) of
           Inl e \<Rightarrow> Inl e
         | Inr (h1, this1) \<Rightarrow>
             (let objs1 = objs(this := this1)
              in (case m_content (objs1 other) of
                    None \<Rightarrow> Inl NullDeref
                  | Some p \<Rightarrow>
                      (case DataItem_copy h1 p of
                         Inl e \<Rightarrow> Inl e
                       | Inr (h2, q) \<Rightarrow>
                           Inr (h2, objs1(this := (objs1 this)\<lparr>m_content := Some q\<rparr>))))))
      else Inr (h, objs))"

subsection \<open>Mutators\<close>

text \<open>\<^verbatim>\<open>if(m_content == nullptr) { m_content = new ...; }\<close>: afterwards the content is
  not null; the pointer is returned along with the heap and the handle.\<close>

definition materialize :: "DataItem \<Rightarrow> heap \<Rightarrow> JsonItem \<Rightarrow> heap \<times> JsonItem \<times> ptr" where
  "materialize fresh h this =
     (case m_content this of
        None \<Rightarrow> (case alloc h fresh of (h', q) \<Rightarrow> (h', this\<lparr>m_content := Some q\<rparr>, q))
      | Some p \<Rightarrow> (h, this, p))"

text \<open>\<^verbatim>\<open>JsonItem::setValue\<close>, the three overloads: they differ in the
  \<^verbatim>\<open>DataValue::setValue\<close> overload that is called.\<close>

definition JsonItem_setValue ::
  "DataValue_ops \<Rightarrow> (scalar \<Rightarrow> scalar) \<Rightarrow> heap \<Rightarrow> JsonItem \<Rightarrow> fault + bool \<times> heap \<times> JsonItem" where
  "JsonItem_setValue ops setter h this =
     (case materialize (DataValue (new_DataValue ops)) h this of
        (h1, this1, p) \<Rightarrow>
          (case load h1 p of
             Inl e \<Rightarrow> Inl e
           | Inr n \<Rightarrow>
               if getType n = VALUE_TYPE then
                 (case toValue n of
                    None \<Rightarrow> Inl BadCast
                  | Some v \<Rightarrow>
                      (case store h1 p (DataValue (setter v)) of
                         Inl e \<Rightarrow> Inl e
                       | Inr h2 \<Rightarrow> Inr (True, h2, this1)))
               else Inr (False, h1, this1)))"

definition JsonItem_setValue_string ::
  "DataValue_ops \<Rightarrow> heap \<Rightarrow> JsonItem \<Rightarrow> string \<Rightarrow> fault + bool \<times> heap \<times> JsonItem" where
  "JsonItem_setValue_string ops h this value =
     JsonItem_setValue ops (\<lambda>v. setValue_string ops v value) h this"

definition JsonItem_setValue_int ::
  "DataValue_ops \<Rightarrow> heap \<Rightarrow> JsonItem \<Rightarrow> 32 word \<Rightarrow> fault + bool \<times> heap \<times> JsonItem" where
  "JsonItem_setValue_int ops h this value =
     JsonItem_setValue ops (\<lambda>v. setValue_int ops v value) h this"

definition JsonItem_setValue_float ::
  "DataValue_ops \<Rightarrow> heap \<Rightarrow> JsonItem \<Rightarrow> 32 word \<Rightarrow> fault + bool \<times> heap \<times> JsonItem" where
  "JsonItem_setValue_float ops h this value =
     JsonItem_setValue ops (\<lambda>v. setValue_float ops v value) h this"

text \<open>\<^verbatim>\<open>JsonItem::insert(key, value, force)\<close>. \<open>value\<close> is a \<^verbatim>\<open>const\<close> reference; it is
  passed by value here, which reads the same fields even when \<open>value\<close> is \<open>this\<close>
  object: the only write to \<open>this\<close> before \<^verbatim>\<open>value.m_content\<close> is read again happens
  when the content of \<open>this\<close> is null, and then the function has returned already.\<close>

definition JsonItem_insert ::
  "heap \<Rightarrow> JsonItem \<Rightarrow> string \<Rightarrow> JsonItem \<Rightarrow> bool \<Rightarrow> fault + bool \<times> heap \<times> JsonItem" where
  "JsonItem_insert h this key value force =
     (case m_content value of
        None \<Rightarrow> Inr (False, h, this)
      | Some pv \<Rightarrow>
          if key = [] then Inr (False, h, this)
          else
            (case materialize (DataObject []) h this of
               (h1, this1, p) \<Rightarrow>
                 (case load h1 p of
                    Inl e \<Rightarrow> Inl e
                  | Inr n \<Rightarrow>
                      if getType n = OBJECT_TYPE then
                        (case DataItem_copy h1 pv of
                           Inl e \<Rightarrow> Inl e
                         | Inr (h2, q) \<Rightarrow>
                             (case DataObject_insert h2 p key q force of
                                Inl e \<Rightarrow> Inl e
                              | Inr (b, h3) \<Rightarrow> Inr (b, h3, this1)))
                      else Inr (False, h1, this1))))"

text \<open>\<^verbatim>\<open>JsonItem::append(value)\<close>\<close>

definition JsonItem_append ::
  "heap \<Rightarrow> JsonItem \<Rightarrow> JsonItem \<Rightarrow> fault + bool \<times> heap \<times> JsonItem" where
  "JsonItem_append h this value =
     (case m_content value of
        None \<Rightarrow> Inr (False, h, this)
      | Some pv \<Rightarrow>
          (case materialize (DataArray []) h this of
             (h1, this1, p) \<Rightarrow>
               (case load h1 p of
                  Inl e \<Rightarrow> Inl e
                | Inr n \<Rightarrow>
                    if getType n = ARRAY_TYPE then
                      (case DataItem_copy h1 pv of
                         Inl e \<Rightarrow> Inl e
                       | Inr (h2, q) \<Rightarrow>
                           (case DataArray_append h2 p q of
                              Inl e \<Rightarrow> Inl e
                            | Inr (b, h3) \<Rightarrow> Inr (b, h3, this1)))
                    else Inr (False, h1, this1))))"

text \<open>\<^verbatim>\<open>m_content->toArray()->m_array[index] = q\<close>: the slot is overwritten with the new
  node, which the array owns from now on. The node the slot pointed to is not deleted:
  it stays allocated, a tree of its own that nothing refers to.\<close>

definition DataArray_assign :: "heap \<Rightarrow> ptr \<Rightarrow> nat \<Rightarrow> ptr \<Rightarrow> fault + heap" where
  "DataArray_assign h p i q =
     (case load h p of
        Inl e \<Rightarrow> Inl e
      | Inr n \<Rightarrow>
          (case toArray n of
             None \<Rightarrow> Inl BadCast
           | Some xs \<Rightarrow>
               if i < length xs then
                 (case take_root h q of
                    Inl e \<Rightarrow> Inl e
                  | Inr (c, h1) \<Rightarrow>
                      (case store h1 p (DataArray (xs[i := c])) of
                         Inl e \<Rightarrow> Inl e
                       | Inr h2 \<Rightarrow> Inr (h2 @ [Some (xs ! i)])))
               else Inl OutOfBounds))"

text \<open>\<^verbatim>\<open>JsonItem::replaceItem(index, value)\<close>. The array is materialized before the index
  is compared with its size. The value returned on success is the new pointer
  converted to \<^verbatim>\<open>bool\<close>: a copy is never null.\<close>

definition JsonItem_replaceItem ::
  "heap \<Rightarrow> JsonItem \<Rightarrow> 32 word \<Rightarrow> JsonItem \<Rightarrow> fault + bool \<times> heap \<times> JsonItem" where
  "JsonItem_replaceItem h this index value =
     (case m_content value of
        None \<Rightarrow> Inr (False, h, this)
      | Some pv \<Rightarrow>
          (case materialize (DataArray []) h this of
             (h1, this1, p) \<Rightarrow>
               (case load h1 p of
                  Inl e \<Rightarrow> Inl e
                | Inr n \<Rightarrow>
                    if getType n = ARRAY_TYPE
                       \<and> (case toArray n of None \<Rightarrow> False | Some xs \<Rightarrow> length xs > unat index)
                    then
                      (case DataItem_copy h1 pv of
                         Inl e \<Rightarrow> Inl e
                       | Inr (h2, q) \<Rightarrow>
                           (case DataArray_assign h2 p (unat index) q of
                              Inl e \<Rightarrow> Inl e
                            | Inr h3 \<Rightarrow> Inr (True, h3, this1)))
                    else Inr (False, h1, this1))))"

text \<open>\<^verbatim>\<open>JsonItem::remove(key)\<close> and \<^verbatim>\<open>JsonItem::remove(index)\<close>\<close>

definition JsonItem_remove ::
  "heap \<Rightarrow> JsonItem \<Rightarrow> step \<Rightarrow> fault + bool \<times> heap \<times> JsonItem" where
  "JsonItem_remove h this s =
     (case m_content this of
        Some p \<Rightarrow>
          (case DataItem_remove h p s of
             Inl e \<Rightarrow> Inl e
           | Inr (b, h') \<Rightarrow> Inr (b, h', this))
      | None \<Rightarrow> Inr (False, h, this))"

definition JsonItem_remove_key ::
  "heap \<Rightarrow> JsonItem \<Rightarrow> string \<Rightarrow> fault + bool \<times> heap \<times> JsonItem" where
  "JsonItem_remove_key h this key = JsonItem_remove h this (Key key)"

definition JsonItem_remove_index ::
  "heap \<Rightarrow> JsonItem \<Rightarrow> 32 word \<Rightarrow> fault + bool \<times> heap \<times> JsonItem" where
  "JsonItem_remove_index h this index = JsonItem_remove h this (Idx (unat index))"

subsection \<open>Accessors\<close>

text \<open>\<^verbatim>\<open>JsonItem::getItemContent()\<close>\<close>

definition JsonItem_getItemContent :: "JsonItem \<Rightarrow> ptr option" where
  "JsonItem_getItemContent this = m_content this"

text \<open>\<^verbatim>\<open>JsonItem::get(key, copy)\<close> and \<^verbatim>\<open>JsonItem::get(index, copy)\<close>: the node's
  \<^verbatim>\<open>get\<close>, then the wrapping constructor. \<^verbatim>\<open>operator[]\<close> is the same with
  \<open>copy = true\<close>.\<close>

definition JsonItem_get :: "heap \<Rightarrow> JsonItem \<Rightarrow> step \<Rightarrow> bool \<Rightarrow> fault + heap \<times> JsonItem" where
  "JsonItem_get h this s copy =
     (case m_content this of
        None \<Rightarrow> Inr (h, JsonItem_ctor)
      | Some p \<Rightarrow>
          (case DataItem_get h p s of
             Inl e \<Rightarrow> Inl e
           | Inr r \<Rightarrow> JsonItem_wrap_ctor h r copy))"

definition JsonItem_get_key ::
  "heap \<Rightarrow> JsonItem \<Rightarrow> string \<Rightarrow> bool \<Rightarrow> fault + heap \<times> JsonItem" where
  "JsonItem_get_key h this key copy = JsonItem_get h this (Key key) copy"

definition JsonItem_get_index ::
  "heap \<Rightarrow> JsonItem \<Rightarrow> 32 word \<Rightarrow> bool \<Rightarrow> fault + heap \<times> JsonItem" where
  "JsonItem_get_index h this index copy = JsonItem_get h this (Idx (unat index)) copy"

definition JsonItem_subscript_key ::
  "heap \<Rightarrow> JsonItem \<Rightarrow> string \<Rightarrow> fault + heap \<times> JsonItem" where
  "JsonItem_subscript_key h this key = JsonItem_get h this (Key key) True"

definition JsonItem_subscript_index ::
  "heap \<Rightarrow> JsonItem \<Rightarrow> 32 word \<Rightarrow> fault + heap \<times> JsonItem" where
  "JsonItem_subscript_index h this index = JsonItem_get h this (Idx (unat index)) True"

text \<open>\<^verbatim>\<open>JsonItem::getString()\<close>: the type of the node is checked before the cast.\<close>

definition JsonItem_getString :: "heap \<Rightarrow> JsonItem \<Rightarrow> fault + string" where
  "JsonItem_getString h this =
     (case m_content this of
        None \<Rightarrow> Inr []
      | Some p \<Rightarrow>
          (case load h p of
             Inl e \<Rightarrow> Inl e
           | Inr n \<Rightarrow>
               if getType n = VALUE_TYPE then
                 (case toValue n of None \<Rightarrow> Inl BadCast | Some v \<Rightarrow> Inr (toString v))
               else Inr []))"

text \<open>\<^verbatim>\<open>JsonItem::getInt()\<close> and \<^verbatim>\<open>JsonItem::getFloat()\<close>: the result of
  \<^verbatim>\<open>m_content->toValue()\<close> is used without a check of the node's type.\<close>

definition JsonItem_getInt :: "heap \<Rightarrow> JsonItem \<Rightarrow> fault + 32 word" where
  "JsonItem_getInt h this =
     (case m_content this of
        None \<Rightarrow> Inr 0
      | Some p \<Rightarrow>
          (case load h p of
             Inl e \<Rightarrow> Inl e
           | Inr n \<Rightarrow>
               (case toValue n of
                  None \<Rightarrow> Inl BadCast
                | Some v \<Rightarrow> if getValueType v = INT_TYPE then Inr (toInt v) else Inr 0)))"

definition JsonItem_getFloat :: "heap \<Rightarrow> JsonItem \<Rightarrow> fault + 32 word" where
  "JsonItem_getFloat h this =
     (case m_content this of
        None \<Rightarrow> Inr 0
      | Some p \<Rightarrow>
          (case load h p of
             Inl e \<Rightarrow> Inl e
           | Inr n \<Rightarrow>
               (case toValue n of
                  None \<Rightarrow> Inl BadCast
                | Some v \<Rightarrow> if getValueType v = FLOAT_TYPE then Inr (toFloat v) else Inr 0)))"

text \<open>\<^verbatim>\<open>JsonItem::getSize()\<close>, a \<^verbatim>\<open>uint32_t\<close>\<close>

definition JsonItem_getSize :: "heap \<Rightarrow> JsonItem \<Rightarrow> fault + 32 word" where
  "JsonItem_getSize h this =
     (case m_content this of
        None \<Rightarrow> Inr 0
      | Some p \<Rightarrow>
          (case load h p of
             Inl e \<Rightarrow> Inl e
           | Inr n \<Rightarrow> Inr (of_nat (DataItem_getSize n))))"

text \<open>\<^verbatim>\<open>JsonItem::getKeys()\<close> and \<^verbatim>\<open>JsonItem::contains(key)\<close>\<close>

definition JsonItem_getKeys :: "heap \<Rightarrow> JsonItem \<Rightarrow> fault + string list" where
  "JsonItem_getKeys h this =
     (case m_content this of
        None \<Rightarrow> Inr []
      | Some p \<Rightarrow>
          (case load h p of
             Inl e \<Rightarrow> Inl e
           | Inr n \<Rightarrow>
               if getType n = OBJECT_TYPE then
                 (case toObject n of
                    None \<Rightarrow> Inl BadCast
                  | Some kvs \<Rightarrow> Inr (DataObject_getKeys kvs))
               else Inr []))"

definition JsonItem_contains :: "heap \<Rightarrow> JsonItem \<Rightarrow> string \<Rightarrow> fault + bool" where
  "JsonItem_contains h this key =
     (case m_content this of
        None \<Rightarrow> Inr False
      | Some p \<Rightarrow>
          (case load h p of
             Inl e \<Rightarrow> Inl e
           | Inr n \<Rightarrow>
               if getType n = OBJECT_TYPE then
                 (case toObject n of
                    None \<Rightarrow> Inl BadCast
                  | Some kvs \<Rightarrow> Inr (DataObject_contains kvs key))
               else Inr False))"

text \<open>\<^verbatim>\<open>JsonItem::isValid()\<close>, \<^verbatim>\<open>isObject()\<close>, \<^verbatim>\<open>isArray()\<close>, \<^verbatim>\<open>isValue()\<close>\<close>

definition JsonItem_isValid :: "JsonItem \<Rightarrow> bool" where
  "JsonItem_isValid this = (if m_content this \<noteq> None then True else False)"

definition JsonItem_isType :: "dataTypes \<Rightarrow> heap \<Rightarrow> JsonItem \<Rightarrow> fault + bool" where
  "JsonItem_isType ty h this =
     (case m_content this of
        None \<Rightarrow> Inr False
      | Some p \<Rightarrow>
          (case load h p of
             Inl e \<Rightarrow> Inl e
           | Inr n \<Rightarrow> if getType n = ty then Inr True else Inr False))"

definition JsonItem_isObject :: "heap \<Rightarrow> JsonItem \<Rightarrow> fault + bool" where
  "JsonItem_isObject h this = JsonItem_isType OBJECT_TYPE h this"

definition JsonItem_isArray :: "heap \<Rightarrow> JsonItem \<Rightarrow> fault + bool" where
  "JsonItem_isArray h this = JsonItem_isType ARRAY_TYPE h this"

definition JsonItem_isValue :: "heap \<Rightarrow> JsonItem \<Rightarrow> fault + bool" where
  "JsonItem_isValue h this = JsonItem_isType VALUE_TYPE h this"

text \<open>\<^verbatim>\<open>JsonItem::print(indent)\<close>. The serializer of the nodes, \<^verbatim>\<open>DataItem::print\<close>, is a
  parameter.\<close>

definition JsonItem_print ::
  "(DataItem \<Rightarrow> bool \<Rightarrow> string) \<Rightarrow> heap \<Rightarrow> JsonItem \<Rightarrow> bool \<Rightarrow> fault + string" where
  "JsonItem_print node_print h this indent =
     (case m_content this of
        Some p \<Rightarrow>
          (case load h p of
             Inl e \<Rightarrow> Inl e
           | Inr n \<Rightarrow> Inr (node_print n indent))
      | None \<Rightarrow> Inr [])"

subsection \<open>Constructors from collections\<close>

text \<open>Calls of \<^verbatim>\<open>append\<close> in a row on one handle, with the value each call returned.\<close>

fun append_all ::
  "heap \<Rightarrow> JsonItem \<Rightarrow> JsonItem list \<Rightarrow> fault + bool list \<times> heap \<times> JsonItem" where
  "append_all h this [] = Inr ([], h, this)"
| "append_all h this (v # vs) =
     (case JsonItem_append h this v of
        Inl e \<Rightarrow> Inl e
      | Inr (b, h1, this1) \<Rightarrow>
          (case append_all h1 this1 vs of
             Inl e \<Rightarrow> Inl e
           | Inr (bs, h2, this2) \<Rightarrow> Inr (b # bs, h2, this2)))"

text \<open>\<^verbatim>\<open>JsonItem::JsonItem(std::vector<JsonItem> &value)\<close>: a new \<^verbatim>\<open>DataArray\<close>, then
  \<^verbatim>\<open>append\<close> for every element; what \<^verbatim>\<open>append\<close> returns is dropped.\<close>

definition JsonItem_vector_ctor :: "heap \<Rightarrow> JsonItem list \<Rightarrow> fault + heap \<times> JsonItem" where
  "JsonItem_vector_ctor h value =
     (case alloc h (DataArray []) of
        (h', q) \<Rightarrow>
          (case append_all h' (JsonItem_members\<lparr>m_content := Some q\<rparr>) value of
             Inl e \<Rightarrow> Inl e
           | Inr (bs, h2, this2) \<Rightarrow> Inr (h2, this2)))"

text \<open>\<^verbatim>\<open>JsonItem::JsonItem(std::map<std::string, JsonItem> &value)\<close>: a new
  \<^verbatim>\<open>DataObject\<close>, then \<^verbatim>\<open>insert(it->first, it->second)\<close> for every entry, with the
  default \<open>force = false\<close> of the declaration (section 4.2 of the specification);
  what \<^verbatim>\<open>insert\<close> returns is dropped. The argument is the list of the map's entries
  in the order of the iteration.\<close>

fun insert_all ::
  "heap \<Rightarrow> JsonItem \<Rightarrow> (string \<times> JsonItem) list \<Rightarrow> fault + heap \<times> JsonItem" where
  "insert_all h this [] = Inr (h, this)"
| "insert_all h this ((key, v) # kvs) =
     (case JsonItem_insert h this key v False of
        Inl e \<Rightarrow> Inl e
      | Inr (b, h1, this1) \<Rightarrow> insert_all h1 this1 kvs)"

definition JsonItem_map_ctor ::
  "heap \<Rightarrow> (string \<times> JsonItem) list \<Rightarrow> fault + heap \<times> JsonItem" where
  "JsonItem_map_ctor h value =
     (case alloc h (DataObject []) of
        (h', q) \<Rightarrow> insert_all h' (JsonItem_members\<lparr>m_content := Some q\<rparr>) value)"

subsection \<open>Vocabulary of the properties\<close>

text \<open>The tree a handle holds: \<open>None\<close> for an invalid handle.\<close>

definition JsonItem_tree :: "heap \<Rightarrow> JsonItem \<Rightarrow> fault + DataItem option" where
  "JsonItem_tree h this =
     (case m_content this of
        None \<Rightarrow> Inr None
      | Some p \<Rightarrow> (case load h p of Inl e \<Rightarrow> Inl e | Inr n \<Rightarrow> Inr (Some n)))"

text \<open>A lookup by key misses when the node is not an Object or has no such key; a
  lookup by index misses when the node is not an Array or the index is not below its
  size.\<close>

definition key_missing :: "DataItem \<Rightarrow> string \<Rightarrow> bool" where
  "key_missing n key =
     (case toObject n of None \<Rightarrow> True | Some kvs \<Rightarrow> \<not> DataObject_contains kvs key)"

definition index_missing :: "DataItem \<Rightarrow> 32 word \<Rightarrow> bool" where
  "index_missing n index =
     (case toArray n of None \<Rightarrow> True | Some xs \<Rightarrow> length xs \<le> unat index)"

text \<open>A pointer is live when it still leads to a node. A handle is well formed when its
  content, if any, is live, and an owning handle holds the root of a tree: it was
  given a node made by \<^verbatim>\<open>new\<close>, \<^verbatim>\<open>copy()\<close> or the parser, never a child.\<close>

definition live :: "heap \<Rightarrow> ptr \<Rightarrow> bool" where
  "live h p = (case load h p of Inl e \<Rightarrow> False | Inr n \<Rightarrow> True)"

definition JsonItem_wf :: "heap \<Rightarrow> JsonItem \<Rightarrow> bool" where
  "JsonItem_wf h this =
     (case m_content this of
        None \<Rightarrow> True
      | Some p \<Rightarrow> live h p \<and> (m_deletable this \<longrightarrow> ptr_path p = []))"

text \<open>The mutating operations of a handle, as data, and a run of them on one handle.\<close>

datatype mutation =
  Insert string JsonItem bool
| Append JsonItem
| ReplaceItem "32 word" JsonItem
| SetValueString string
| SetValueInt "32 word"
| SetValueFloat "32 word"
| RemoveKey string
| RemoveIndex "32 word"

fun mutate ::
  "DataValue_ops \<Rightarrow> heap \<Rightarrow> JsonItem \<Rightarrow> mutation \<Rightarrow> fault + bool \<times> heap \<times> JsonItem" where
  "mutate ops h this (Insert key value force) = JsonItem_insert h this key value force"
| "mutate ops h this (Append value) = JsonItem_append h this value"
| "mutate ops h this (ReplaceItem index value) = JsonItem_replaceItem h this index value"
| "mutate ops h this (SetValueString value) = JsonItem_setValue_string ops h this value"
| "mutate ops h this (SetValueInt value) = JsonItem_setValue_int ops h this value"
| "mutate ops h this (SetValueFloat value) = JsonItem_setValue_float ops h this value"
| "mutate ops h this (RemoveKey key) = JsonItem_remove_key h this key"
| "mutate ops h this (RemoveIndex index) = JsonItem_remove_index h this index"

fun mutate_all ::
  "DataValue_ops \<Rightarrow> heap \<Rightarrow> JsonItem \<Rightarrow> mutation list \<Rightarrow> fault + heap \<times> JsonItem" where
  "mutate_all ops h this [] = Inr (h, this)"
| "mutate_all ops h this (m # ms) =
     (case mutate ops h this m of
        Inl e \<Rightarrow> Inl e
      | Inr (b, h1, this1) \<Rightarrow> mutate_all ops h1 this1 ms)"

text \<open>The heap \<open>h'\<close> is the heap \<open>h\<close> but for the tree at address \<open>a\<close> and for the
  trees allocated since.\<close>

definition unchanged_except :: "nat \<Rightarrow> heap \<Rightarrow> heap \<Rightarrow> bool" where
  "unchanged_except a h h' =
     (length h \<le> length h' \<and> (\<forall>i<length h. i \<noteq> a \<longrightarrow> h' ! i = h ! i))"

section \<open>Properties\<close>

subsection \<open>Loads and stores\<close>

lemma load_alloc_new: "load (h @ [Some t]) (Ptr (length h) []) = Inr t"
  by (simp add: load_def)

lemma load_Inr_root: "load h p = Inr n \<Longrightarrow> ptr_root p < length h"
  by (simp add: load_def split: if_splits)

lemma load_append_old: "ptr_root p < length h \<Longrightarrow> load (h @ xs) p = load h p"
  by (simp add: load_def nth_append)

lemma load_update_other: "a \<noteq> ptr_root p \<Longrightarrow> load (h[a := x]) p = load h p"
  by (simp add: load_def)

lemma subtree_append:
  "subtree t (ps @ qs) = (case subtree t ps of None \<Rightarrow> None | Some n \<Rightarrow> subtree n qs)"
  by (induction ps arbitrary: t) (auto split: option.splits)

lemma child_set_child: "set_child t s c = Some t' \<Longrightarrow> child t' s = Some c"
  by (induction t s c rule: set_child.induct) (auto simp: update_Some_unfold split: if_splits)

lemma set_child_exists: "child t s = Some c0 \<Longrightarrow> \<exists>t'. set_child t s c = Some t'"
  by (induction t s rule: child.induct) (auto split: if_splits)

lemma subtree_replace_at: "replace_at t ps n = Some t' \<Longrightarrow> subtree t' ps = Some n"
proof (induction ps arbitrary: t t')
  case Nil
  then show ?case by simp
next
  case (Cons s ss)
  then show ?case
    by (auto split: option.splits simp: child_set_child)
qed

lemma replace_at_exists: "subtree t ps = Some n0 \<Longrightarrow> \<exists>t'. replace_at t ps n = Some t'"
proof (induction ps arbitrary: t)
  case Nil
  then show ?case by simp
next
  case (Cons s ss)
  then obtain c where c: "child t s = Some c" "subtree c ss = Some n0"
    by (auto split: option.splits)
  from Cons.IH[OF c(2)] obtain c' where "replace_at c ss n = Some c'" by blast
  with c set_child_exists[OF c(1), of c'] show ?case by auto
qed

lemma load_store_same: "store h p n = Inr h' \<Longrightarrow> load h' p = Inr n"
  by (auto simp: store_def load_def subtree_replace_at split: if_splits option.splits)

lemma store_exists: "load h p = Inr n0 \<Longrightarrow> \<exists>h'. store h p n = Inr h'"
proof -
  assume a: "load h p = Inr n0"
  then obtain t where t: "ptr_root p < length h" "h ! ptr_root p = Some t" "subtree t (ptr_path p) = Some n0"
    by (auto simp: load_def split: if_splits option.splits)
  from replace_at_exists[OF t(3), of n] obtain t' where "replace_at t (ptr_path p) n = Some t'" by blast
  with t show ?thesis by (simp add: store_def)
qed

lemma store_frame:
  "store h p n = Inr h' \<Longrightarrow> length h' = length h \<and> (\<forall>a. a \<noteq> ptr_root p \<longrightarrow> h' ! a = h ! a)"
  by (auto simp: store_def split: if_splits option.splits)

subsection \<open>Lookups that miss\<close>

lemma key_missing_child: "key_missing n key \<Longrightarrow> child n (Key key) = None"
  by (cases n) (auto simp: key_missing_def DataObject_contains_def)

lemma index_missing_child: "index_missing n index \<Longrightarrow> child n (Idx (unat index)) = None"
  by (cases n) (auto simp: index_missing_def)

lemma JsonItem_get_absent:
  "m_content this = None \<Longrightarrow> JsonItem_get h this s copy = Inr (h, JsonItem_ctor)"
  by (simp add: JsonItem_get_def)

lemma JsonItem_get_no_child:
  "m_content this = Some p \<Longrightarrow> load h p = Inr n \<Longrightarrow> child n s = None \<Longrightarrow>
   JsonItem_get h this s copy =
     Inr (h, if copy then JsonItem_members
             else JsonItem_members\<lparr>m_content := None, m_deletable := False\<rparr>)"
  by (simp add: JsonItem_get_def DataItem_get_def JsonItem_wrap_ctor_def)

lemma JsonItem_get_miss:
  assumes "m_content this = None \<or> (\<exists>p n. m_content this = Some p \<and> load h p = Inr n \<and> child n s = None)"
  shows "\<exists>r. JsonItem_get h this s copy = Inr (h, r) \<and> \<not> JsonItem_isValid r"
  using assms
proof (elim disjE exE conjE)
  assume "m_content this = None"
  then have "JsonItem_get h this s copy = Inr (h, JsonItem_ctor)"
    by (rule JsonItem_get_absent)
  moreover have "\<not> JsonItem_isValid JsonItem_ctor"
    by (simp add: JsonItem_isValid_def JsonItem_ctor_def JsonItem_members_def)
  ultimately show ?thesis by blast
next
  fix p n
  assume "m_content this = Some p" "load h p = Inr n" "child n s = None"
  then have "JsonItem_get h this s copy =
     Inr (h, if copy then JsonItem_members
             else JsonItem_members\<lparr>m_content := None, m_deletable := False\<rparr>)"
    by (rule JsonItem_get_no_child)
  moreover have "\<not> JsonItem_isValid (if copy then JsonItem_members
             else JsonItem_members\<lparr>m_content := None, m_deletable := False\<rparr>)"
    by (simp add: JsonItem_isValid_def JsonItem_members_def)
  ultimately show ?thesis by blast
qed

text \<open>C3: the lookups \<^verbatim>\<open>operator[](key)\<close>, \<^verbatim>\<open>operator[](index)\<close>, \<^verbatim>\<open>get(key, copy)\<close>
  and \<^verbatim>\<open>get(index, copy)\<close> return an invalid handle, and no fault, whenever the parent's
  content is absent, or the key or index does not exist, or the parent's variant does
  not match the lookup. The heap is left as it was.\<close>

theorem lookup_miss_invalid_handle:
  "((m_content this = None \<or>
      (\<exists>p n. m_content this = Some p \<and> load h p = Inr n \<and> key_missing n key)) \<longrightarrow>
      (\<exists>r. JsonItem_subscript_key h this key = Inr (h, r) \<and> \<not> JsonItem_isValid r) \<and>
      (\<exists>r. JsonItem_get_key h this key copy = Inr (h, r) \<and> \<not> JsonItem_isValid r)) \<and>
   ((m_content this = None \<or>
      (\<exists>p n. m_content this = Some p \<and> load h p = Inr n \<and> index_missing n index)) \<longrightarrow>
      (\<exists>r. JsonItem_subscript_index h this index = Inr (h, r) \<and> \<not> JsonItem_isValid r) \<and>
      (\<exists>r. JsonItem_get_index h this index copy = Inr (h, r) \<and> \<not> JsonItem_isValid r))"
proof (intro conjI impI)
  assume a: "m_content this = None \<or>
      (\<exists>p n. m_content this = Some p \<and> load h p = Inr n \<and> key_missing n key)"
  then have b: "m_content this = None \<or>
      (\<exists>p n. m_content this = Some p \<and> load h p = Inr n \<and> child n (Key key) = None)"
    using key_missing_child by blast
  show "\<exists>r. JsonItem_subscript_key h this key = Inr (h, r) \<and> \<not> JsonItem_isValid r"
    unfolding JsonItem_subscript_key_def by (rule JsonItem_get_miss[OF b])
  show "\<exists>r. JsonItem_get_key h this key copy = Inr (h, r) \<and> \<not> JsonItem_isValid r"
    unfolding JsonItem_get_key_def by (rule JsonItem_get_miss[OF b])
next
  assume a: "m_content this = None \<or>
      (\<exists>p n. m_content this = Some p \<and> load h p = Inr n \<and> index_missing n index)"
  then have b: "m_content this = None \<or>
      (\<exists>p n. m_content this = Some p \<and> load h p = Inr n \<and> child n (Idx (unat index)) = None)"
    using index_missing_child by blast
  show "\<exists>r. JsonItem_subscript_index h this index = Inr (h, r) \<and> \<not> JsonItem_isValid r"
    unfolding JsonItem_subscript_index_def by (rule JsonItem_get_miss[OF b])
  show "\<exists>r. JsonItem_get_index h this index copy = Inr (h, r) \<and> \<not> JsonItem_isValid r"
    unfolding JsonItem_get_index_def by (rule JsonItem_get_miss[OF b])
qed

theorem lookup_miss_invalid_handle_witness:
  "(\<exists>r. JsonItem_subscript_key [Some (DataArray [DataValue (IntValue 1)])]
          \<lparr>m_content = Some (Ptr 0 []), m_deletable = True\<rparr> ''k''
        = Inr ([Some (DataArray [DataValue (IntValue 1)])], r) \<and> \<not> JsonItem_isValid r) \<and>
   (\<exists>r. JsonItem_get_key [Some (DataArray [DataValue (IntValue 1)])]
          \<lparr>m_content = Some (Ptr 0 []), m_deletable = True\<rparr> ''k'' False
        = Inr ([Some (DataArray [DataValue (IntValue 1)])], r) \<and> \<not> JsonItem_isValid r) \<and>
   (\<exists>r. JsonItem_subscript_index [Some (DataArray [DataValue (IntValue 1)])]
          \<lparr>m_content = Some (Ptr 0 []), m_deletable = True\<rparr> 1
        = Inr ([Some (DataArray [DataValue (IntValue 1)])], r) \<and> \<not> JsonItem_isValid r) \<and>
   (\<exists>r. JsonItem_get_index [Some (DataArray [DataValue (IntValue 1)])]
          \<lparr>m_content = Some (Ptr 0 []), m_deletable = True\<rparr> 1 False
        = Inr ([Some (DataArray [DataValue (IntValue 1)])], r) \<and> \<not> JsonItem_isValid r)"
proof -
  have k: "load [Some (DataArray [DataValue (IntValue 1)])] (Ptr 0 []) =
             Inr (DataArray [DataValue (IntValue 1)])"
    by (simp add: load_def)
  have "key_missing (DataArray [DataValue (IntValue 1)]) ''k''"
    by (simp add: key_missing_def)
  moreover have "index_missing (DataArray [DataValue (IntValue 1)]) 1"
    by (simp add: index_missing_def)
  ultimately show ?thesis
    using k lookup_miss_invalid_handle
      [of "\<lparr>m_content = Some (Ptr 0 []), m_deletable = True\<rparr>"
          "[Some (DataArray [DataValue (IntValue 1)])]" "''k''" False 1]
    by simp
qed

subsection \<open>Scalar getters\<close>

lemma getType_VALUE: "getType n = VALUE_TYPE \<longleftrightarrow> (\<exists>v. n = DataValue v)"
  by (cases n) auto

lemma getType_OBJECT: "getType n = OBJECT_TYPE \<longleftrightarrow> (\<exists>kvs. n = DataObject kvs)"
  by (cases n) auto

lemma getType_ARRAY: "getType n = ARRAY_TYPE \<longleftrightarrow> (\<exists>xs. n = DataArray xs)"
  by (cases n) auto

lemma getString_by_tree:
  "JsonItem_tree h this = Inr t \<Longrightarrow>
   JsonItem_getString h this =
     Inr (case t of Some (DataValue (StringValue s)) \<Rightarrow> s | _ \<Rightarrow> [])"
  by (auto simp: JsonItem_tree_def JsonItem_getString_def getType_VALUE
      split: option.splits sum.splits DataItem.splits scalar.splits)

lemma getInt_by_tree:
  "JsonItem_tree h this = Inr t \<Longrightarrow>
   JsonItem_getInt h this =
     (case t of
        None \<Rightarrow> Inr 0
      | Some (DataValue (IntValue i)) \<Rightarrow> Inr i
      | Some (DataValue _) \<Rightarrow> Inr 0
      | Some _ \<Rightarrow> Inl BadCast)"
  by (auto simp: JsonItem_tree_def JsonItem_getInt_def
      split: option.splits sum.splits DataItem.splits scalar.splits)

lemma getFloat_by_tree:
  "JsonItem_tree h this = Inr t \<Longrightarrow>
   JsonItem_getFloat h this =
     (case t of
        None \<Rightarrow> Inr 0
      | Some (DataValue (FloatValue f)) \<Rightarrow> Inr f
      | Some (DataValue _) \<Rightarrow> Inr 0
      | Some _ \<Rightarrow> Inl BadCast)"
  by (auto simp: JsonItem_tree_def JsonItem_getFloat_def
      split: option.splits sum.splits DataItem.splits scalar.splits)

text \<open>C4: on a handle that holds an Object or an Array, \<^verbatim>\<open>getString()\<close> returns the empty
  string, but \<^verbatim>\<open>getInt()\<close> and \<^verbatim>\<open>getFloat()\<close> do not return 0: they use the result of the
  failed downcast.\<close>

theorem getInt_getFloat_on_container:
  "JsonItem_getString [Some (DataObject [(''a'', DataValue (IntValue 1))])]
      \<lparr>m_content = Some (Ptr 0 []), m_deletable = True\<rparr> = Inr [] \<and>
   JsonItem_getInt [Some (DataObject [(''a'', DataValue (IntValue 1))])]
      \<lparr>m_content = Some (Ptr 0 []), m_deletable = True\<rparr> = Inl BadCast \<and>
   JsonItem_getFloat [Some (DataObject [(''a'', DataValue (IntValue 1))])]
      \<lparr>m_content = Some (Ptr 0 []), m_deletable = True\<rparr> = Inl BadCast \<and>
   JsonItem_getInt [Some (DataArray [])]
      \<lparr>m_content = Some (Ptr 0 []), m_deletable = True\<rparr> = Inl BadCast \<and>
   JsonItem_getFloat [Some (DataArray [])]
      \<lparr>m_content = Some (Ptr 0 []), m_deletable = True\<rparr> = Inl BadCast"
  by (simp add: JsonItem_getString_def JsonItem_getInt_def JsonItem_getFloat_def load_def)

subsection \<open>clear\<close>

lemma clear_absent: "m_content this = None \<Longrightarrow> JsonItem_clear h this = Inr (h, this)"
  by (simp add: JsonItem_clear_def)

lemma clear_view:
  "m_content this = Some p \<Longrightarrow> \<not> m_deletable this \<Longrightarrow> JsonItem_clear h this = Inr (h, this)"
  by (simp add: JsonItem_clear_def)

lemma clear_owner:
  "m_content this = Some (Ptr a []) \<Longrightarrow> m_deletable this \<Longrightarrow> a < length h \<Longrightarrow> h ! a \<noteq> None \<Longrightarrow>
   JsonItem_clear h this = Inr (h[a := None], this\<lparr>m_content := None\<rparr>)"
  by (simp add: JsonItem_clear_def delete_node_def)

lemma clear_result:
  "JsonItem_clear h this = Inr (h', this') \<Longrightarrow>
   (m_content this \<noteq> None \<and> \<not> m_deletable this \<and> h' = h \<and> this' = this) \<or>
   (m_content this' = None \<and> m_deletable this' = m_deletable this)"
  by (auto simp: JsonItem_clear_def split: option.splits if_splits sum.splits)

text \<open>C8 as stated fails for a non-owning handle: the wrapper made with \<open>copy = false\<close>
  around a live node is still valid after \<^verbatim>\<open>clear()\<close>, and its size is still 1.\<close>

theorem clear_view_stays_valid:
  "JsonItem_wrap_ctor [Some (DataArray [DataValue (IntValue 7)])] (Some (Ptr 0 [])) False =
     Inr ([Some (DataArray [DataValue (IntValue 7)])],
          \<lparr>m_content = Some (Ptr 0 []), m_deletable = False\<rparr>) \<and>
   JsonItem_clear [Some (DataArray [DataValue (IntValue 7)])]
       \<lparr>m_content = Some (Ptr 0 []), m_deletable = False\<rparr> =
     Inr ([Some (DataArray [DataValue (IntValue 7)])],
          \<lparr>m_content = Some (Ptr 0 []), m_deletable = False\<rparr>) \<and>
   JsonItem_isValid \<lparr>m_content = Some (Ptr 0 []), m_deletable = False\<rparr> = True \<and>
   JsonItem_getSize [Some (DataArray [DataValue (IntValue 7)])]
       \<lparr>m_content = Some (Ptr 0 []), m_deletable = False\<rparr> = Inr 1"
  by (simp add: JsonItem_wrap_ctor_def JsonItem_members_def JsonItem_clear_def
      JsonItem_isValid_def JsonItem_getSize_def load_def)

text \<open>C8, amended: after \<^verbatim>\<open>clear()\<close> a handle that owns its content, or is empty already,
  is invalid: \<^verbatim>\<open>isValid()\<close> is false, \<^verbatim>\<open>getSize()\<close> is 0 and \<^verbatim>\<open>print()\<close> is the empty
  string; the content of an owning handle is deleted. On a non-owning handle with
  content \<^verbatim>\<open>clear()\<close> does nothing: the handle stays valid and the content stays.\<close>

theorem clear_owner_or_empty_invalid:
  "(m_content this = None \<longrightarrow> JsonItem_clear h this = Inr (h, this)) \<and>
   (m_content this = Some (Ptr a []) \<and> m_deletable this \<and> a < length h \<and> h ! a \<noteq> None \<longrightarrow>
      JsonItem_clear h this = Inr (h[a := None], this\<lparr>m_content := None\<rparr>)) \<and>
   (m_content this \<noteq> None \<and> \<not> m_deletable this \<longrightarrow>
      JsonItem_clear h this = Inr (h, this) \<and> JsonItem_isValid this) \<and>
   ((m_content this = None \<or> m_deletable this) \<and> JsonItem_clear h this = Inr (h', this') \<longrightarrow>
      \<not> JsonItem_isValid this' \<and> JsonItem_getSize h' this' = Inr 0 \<and>
      JsonItem_print node_print h' this' indent = Inr [])"
proof (intro conjI impI)
  assume "m_content this = None"
  then show "JsonItem_clear h this = Inr (h, this)" by (rule clear_absent)
next
  assume "m_content this = Some (Ptr a []) \<and> m_deletable this \<and> a < length h \<and> h ! a \<noteq> None"
  then show "JsonItem_clear h this = Inr (h[a := None], this\<lparr>m_content := None\<rparr>)"
    by (simp add: clear_owner)
next
  assume a: "m_content this \<noteq> None \<and> \<not> m_deletable this"
  then show "JsonItem_clear h this = Inr (h, this)" by (auto simp: clear_view)
  from a show "JsonItem_isValid this" by (simp add: JsonItem_isValid_def)
next
  assume a: "(m_content this = None \<or> m_deletable this) \<and> JsonItem_clear h this = Inr (h', this')"
  then have n: "m_content this' = None"
    using clear_result[of h this h' this'] by auto
  show "\<not> JsonItem_isValid this'" using n by (simp add: JsonItem_isValid_def)
  show "JsonItem_getSize h' this' = Inr 0" using n by (simp add: JsonItem_getSize_def)
  show "JsonItem_print node_print h' this' indent = Inr []" using n by (simp add: JsonItem_print_def)
qed

theorem clear_owner_or_empty_invalid_witness:
  "JsonItem_clear [Some (DataArray [DataValue (IntValue 7)])]
       \<lparr>m_content = Some (Ptr 0 []), m_deletable = True\<rparr> =
     Inr ([None], \<lparr>m_content = None, m_deletable = True\<rparr>) \<and>
   \<not> JsonItem_isValid \<lparr>m_content = None, m_deletable = True\<rparr> \<and>
   JsonItem_getSize [None] \<lparr>m_content = None, m_deletable = True\<rparr> = Inr 0 \<and>
   JsonItem_print (\<lambda>n i. ''x'') [None] \<lparr>m_content = None, m_deletable = True\<rparr> False = Inr []"
proof -
  have c: "JsonItem_clear [Some (DataArray [DataValue (IntValue 7)])]
       \<lparr>m_content = Some (Ptr 0 []), m_deletable = True\<rparr> =
     Inr ([None], \<lparr>m_content = None, m_deletable = True\<rparr>)"
    by (simp add: JsonItem_clear_def delete_node_def)
  show ?thesis
    using c clear_owner_or_empty_invalid
      [of "\<lparr>m_content = Some (Ptr 0 []), m_deletable = True\<rparr>"
          "[Some (DataArray [DataValue (IntValue 7)])]" 0
          "[None]" "\<lparr>m_content = None, m_deletable = True\<rparr>" "\<lambda>n i. ''x''" False]
    by simp
qed

subsection \<open>Invalid handles and invalid operands\<close>

lemma copy_ctor_invalid: "m_content other = None \<Longrightarrow> JsonItem_copy_ctor h other = Inl NullDeref"
  by (simp add: JsonItem_copy_ctor_def)

lemma assign_from_invalid:
  "this \<noteq> other \<Longrightarrow> m_content (objs other) = None \<Longrightarrow>
   JsonItem_clear h (objs this) = Inr (h1, this1) \<Longrightarrow>
   JsonItem_assign h objs this other = Inl NullDeref"
  by (simp add: JsonItem_assign_def)

lemma materialize_absent:
  "m_content this = None \<Longrightarrow>
   materialize n h this = (h @ [Some n], this\<lparr>m_content := Some (Ptr (length h) [])\<rparr>, Ptr (length h) [])"
  by (simp add: materialize_def alloc_def)

lemma materialize_present:
  "m_content this = Some p \<Longrightarrow> materialize n h this = (h, this, p)"
  by (simp add: materialize_def)

lemma store_alloc_new:
  "store (h @ [Some t]) (Ptr (length h) []) n = Inr (h @ [Some n])"
  by (simp add: store_def)

lemma setValue_invalid:
  "m_content this = None \<Longrightarrow>
   JsonItem_setValue ops setter h this =
     Inr (True, h @ [Some (DataValue (setter (new_DataValue ops)))],
          this\<lparr>m_content := Some (Ptr (length h) [])\<rparr>)"
  by (simp add: JsonItem_setValue_def materialize_absent load_alloc_new store_alloc_new)

lemma insert_invalid_operand:
  "m_content v = None \<Longrightarrow> JsonItem_insert h this key v force = Inr (False, h, this)"
  by (simp add: JsonItem_insert_def)

lemma append_invalid_operand:
  "m_content v = None \<Longrightarrow> JsonItem_append h this v = Inr (False, h, this)"
  by (simp add: JsonItem_append_def)

lemma replaceItem_invalid_operand:
  "m_content v = None \<Longrightarrow> JsonItem_replaceItem h this index v = Inr (False, h, this)"
  by (simp add: JsonItem_replaceItem_def)

lemma replaceItem_invalid_this:
  "m_content this = None \<Longrightarrow> m_content w = Some pw \<Longrightarrow>
   JsonItem_replaceItem h this index w =
     Inr (False, h @ [Some (DataArray [])], this\<lparr>m_content := Some (Ptr (length h) [])\<rparr>)"
  by (simp add: JsonItem_replaceItem_def materialize_absent load_alloc_new)

lemma take_root_alloc_new:
  "take_root (h @ [Some c]) (Ptr (length h) []) = Inr (c, h @ [None])"
  by (simp add: take_root_def)

lemma insert_invalid_this:
  assumes "m_content this = None" "m_content v = Some pv" "load h pv = Inr c" "key \<noteq> []"
  shows "JsonItem_insert h this key v force =
     Inr (True, h @ [Some (DataObject [(key, c)]), None],
          this\<lparr>m_content := Some (Ptr (length h) [])\<rparr>)"
proof -
  let ?h1 = "h @ [Some (DataObject [])]"
  let ?p = "Ptr (length h) []"
  have l1: "load ?h1 ?p = Inr (DataObject [])" by (rule load_alloc_new)
  have r: "ptr_root pv < length h" using assms(3) by (rule load_Inr_root)
  have l2: "load ?h1 pv = Inr c" using assms(3) r by (simp add: load_append_old)
  have cp: "DataItem_copy ?h1 pv = Inr (?h1 @ [Some c], Ptr (length ?h1) [])"
    using l2 by (simp add: DataItem_copy_def alloc_def)
  have l3: "load (?h1 @ [Some c]) ?p = Inr (DataObject [])"
    using l1 by (simp add: load_append_old del: append_assoc)
  have tk: "take_root (?h1 @ [Some c]) (Ptr (length ?h1) []) = Inr (c, ?h1 @ [None])"
    by (rule take_root_alloc_new)
  have st: "store (?h1 @ [None]) ?p (DataObject [(key, c)]) =
     Inr (h @ [Some (DataObject [(key, c)]), None])"
    by (simp add: store_def nth_append)
  have ins: "DataObject_insert (?h1 @ [Some c]) ?p key (Ptr (length ?h1) []) force =
     Inr (True, h @ [Some (DataObject [(key, c)]), None])"
    unfolding DataObject_insert_def using l3 tk st by simp
  show ?thesis
    unfolding JsonItem_insert_def using assms(1,2,4) l1 cp ins
    by (simp add: materialize_absent)
qed

lemma append_invalid_this:
  assumes "m_content this = None" "m_content v = Some pv" "load h pv = Inr c"
  shows "JsonItem_append h this v =
     Inr (True, h @ [Some (DataArray [c]), None],
          this\<lparr>m_content := Some (Ptr (length h) [])\<rparr>)"
proof -
  let ?h1 = "h @ [Some (DataArray [])]"
  let ?p = "Ptr (length h) []"
  have l1: "load ?h1 ?p = Inr (DataArray [])" by (rule load_alloc_new)
  have r: "ptr_root pv < length h" using assms(3) by (rule load_Inr_root)
  have l2: "load ?h1 pv = Inr c" using assms(3) r by (simp add: load_append_old)
  have cp: "DataItem_copy ?h1 pv = Inr (?h1 @ [Some c], Ptr (length ?h1) [])"
    using l2 by (simp add: DataItem_copy_def alloc_def)
  have l3: "load (?h1 @ [Some c]) ?p = Inr (DataArray [])"
    using l1 by (simp add: load_append_old del: append_assoc)
  have tk: "take_root (?h1 @ [Some c]) (Ptr (length ?h1) []) = Inr (c, ?h1 @ [None])"
    by (rule take_root_alloc_new)
  have st: "store (?h1 @ [None]) ?p (DataArray [c]) = Inr (h @ [Some (DataArray [c]), None])"
    by (simp add: store_def nth_append)
  have ins: "DataArray_append (?h1 @ [Some c]) ?p (Ptr (length ?h1) []) =
     Inr (True, h @ [Some (DataArray [c]), None])"
    unfolding DataArray_append_def using l3 tk st by simp
  show ?thesis
    unfolding JsonItem_append_def using assms(1,2) l1 cp ins
    by (simp add: materialize_absent)
qed

lemma getters_invalid:
  assumes "m_content this = None"
  shows "JsonItem_getString h this = Inr []"
    and "JsonItem_getInt h this = Inr 0"
    and "JsonItem_getFloat h this = Inr 0"
    and "JsonItem_getSize h this = Inr 0"
    and "JsonItem_getKeys h this = Inr []"
    and "JsonItem_contains h this key = Inr False"
    and "JsonItem_isValid this = False"
    and "JsonItem_isObject h this = Inr False"
    and "JsonItem_isArray h this = Inr False"
    and "JsonItem_isValue h this = Inr False"
    and "JsonItem_print node_print h this indent = Inr []"
    and "JsonItem_get h this s copy = Inr (h, JsonItem_ctor)"
    and "JsonItem_remove h this s = Inr (False, h, this)"
    and "JsonItem_clear h this = Inr (h, this)"
  using assms
  by (simp_all add: JsonItem_getString_def JsonItem_getInt_def JsonItem_getFloat_def
      JsonItem_getSize_def JsonItem_getKeys_def JsonItem_contains_def JsonItem_isValid_def
      JsonItem_isObject_def JsonItem_isArray_def JsonItem_isValue_def JsonItem_isType_def
      JsonItem_print_def JsonItem_get_def JsonItem_remove_def JsonItem_clear_def)

lemma parse_invalid:
  "m_content this = None \<Longrightarrow>
   JsonItem_parse parser_of h this input trace =
     (if parse_result (parser_of trace input) = False
      then Inr ((False, getErrorMessage (parser_of trace input)), h, this)
      else (case getOutput (parser_of trace input) of
              None \<Rightarrow> Inr ((True, []), h, this)
            | Some t \<Rightarrow> Inr ((True, []), h @ [Some t], this\<lparr>m_content := Some (Ptr (length h) [])\<rparr>)))"
  by (simp add: JsonItem_parse_def Let_def JsonItem_clear_def alloc_def split: option.splits)

lemma assign_to_invalid:
  "this \<noteq> other \<Longrightarrow> m_content (objs this) = None \<Longrightarrow> m_content (objs other) = Some p \<Longrightarrow>
   load h p = Inr n \<Longrightarrow>
   JsonItem_assign h objs this other =
     Inr (h @ [Some n], objs(this := (objs this)\<lparr>m_content := Some (Ptr (length h) [])\<rparr>))"
  by (simp add: JsonItem_assign_def JsonItem_clear_def DataItem_copy_def alloc_def Let_def)

lemma append_all_invalid_operands:
  "\<forall>v\<in>set vs. m_content v = None \<Longrightarrow>
   append_all h this vs = Inr (replicate (length vs) False, h, this)"
  by (induction vs) (simp_all add: append_invalid_operand)

lemma insert_all_invalid_operands:
  "\<forall>kv\<in>set kvs. m_content (snd kv) = None \<Longrightarrow> insert_all h this kvs = Inr (h, this)"
  by (induction kvs) (auto simp: insert_invalid_operand)

lemma vector_ctor_invalid_operands:
  "\<forall>v\<in>set vs. m_content v = None \<Longrightarrow>
   JsonItem_vector_ctor h vs =
     Inr (h @ [Some (DataArray [])], JsonItem_members\<lparr>m_content := Some (Ptr (length h) [])\<rparr>)"
  by (simp add: JsonItem_vector_ctor_def alloc_def append_all_invalid_operands)

lemma map_ctor_invalid_operands:
  "\<forall>kv\<in>set kvs. m_content (snd kv) = None \<Longrightarrow>
   JsonItem_map_ctor h kvs =
     Inr (h @ [Some (DataObject [])], JsonItem_members\<lparr>m_content := Some (Ptr (length h) [])\<rparr>)"
  by (simp add: JsonItem_map_ctor_def alloc_def insert_all_invalid_operands)

text \<open>C9: copy construction from an invalid handle and assignment from an invalid handle
  dereference the null content pointer; every other operation of the handle answers
  an invalid handle, or an invalid operand, without a fault.\<close>

theorem copy_and_assign_need_valid_source:
  "(m_content x = None \<longrightarrow>
      JsonItem_copy_ctor h x = Inl NullDeref \<and>
      JsonItem_getString h x = Inr [] \<and>
      JsonItem_getInt h x = Inr 0 \<and>
      JsonItem_getFloat h x = Inr 0 \<and>
      JsonItem_getSize h x = Inr 0 \<and>
      JsonItem_getKeys h x = Inr [] \<and>
      JsonItem_contains h x key = Inr False \<and>
      JsonItem_isValid x = False \<and>
      JsonItem_isObject h x = Inr False \<and>
      JsonItem_isArray h x = Inr False \<and>
      JsonItem_isValue h x = Inr False \<and>
      JsonItem_print node_print h x indent = Inr [] \<and>
      JsonItem_get_key h x key copy = Inr (h, JsonItem_ctor) \<and>
      JsonItem_get_index h x index copy = Inr (h, JsonItem_ctor) \<and>
      JsonItem_subscript_key h x key = Inr (h, JsonItem_ctor) \<and>
      JsonItem_subscript_index h x index = Inr (h, JsonItem_ctor) \<and>
      JsonItem_remove_key h x key = Inr (False, h, x) \<and>
      JsonItem_remove_index h x index = Inr (False, h, x) \<and>
      JsonItem_clear h x = Inr (h, x) \<and>
      JsonItem_setValue_string ops h x sv =
        Inr (True, h @ [Some (DataValue (setValue_string ops (new_DataValue ops) sv))],
             x\<lparr>m_content := Some (Ptr (length h) [])\<rparr>) \<and>
      JsonItem_setValue_int ops h x iv =
        Inr (True, h @ [Some (DataValue (setValue_int ops (new_DataValue ops) iv))],
             x\<lparr>m_content := Some (Ptr (length h) [])\<rparr>) \<and>
      JsonItem_setValue_float ops h x fv =
        Inr (True, h @ [Some (DataValue (setValue_float ops (new_DataValue ops) fv))],
             x\<lparr>m_content := Some (Ptr (length h) [])\<rparr>) \<and>
      JsonItem_insert h y key x force = Inr (False, h, y) \<and>
      JsonItem_append h y x = Inr (False, h, y) \<and>
      JsonItem_replaceItem h y index x = Inr (False, h, y) \<and>
      JsonItem_vector_ctor h [x] =
        Inr (h @ [Some (DataArray [])],
             JsonItem_members\<lparr>m_content := Some (Ptr (length h) [])\<rparr>) \<and>
      JsonItem_map_ctor h [(key, x)] =
        Inr (h @ [Some (DataObject [])],
             JsonItem_members\<lparr>m_content := Some (Ptr (length h) [])\<rparr>) \<and>
      (\<exists>r. JsonItem_parse parser_of h x input trace = Inr r) \<and>
      (\<forall>pv c. m_content v = Some pv \<and> load h pv = Inr c \<longrightarrow>
         (key \<noteq> [] \<longrightarrow> (\<exists>r. JsonItem_insert h x key v force = Inr (True, r))) \<and>
         (\<exists>r. JsonItem_append h x v = Inr (True, r)) \<and>
         (\<exists>r. JsonItem_replaceItem h x index v = Inr (False, r)))) \<and>
   JsonItem_wrap_ctor h None copy =
     Inr (h, if copy then JsonItem_members
             else JsonItem_members\<lparr>m_content := None, m_deletable := False\<rparr>) \<and>
   (this \<noteq> other \<and> m_content (objs other) = None \<and>
      (\<exists>r. JsonItem_clear h (objs this) = Inr r) \<longrightarrow>
        JsonItem_assign h objs this other = Inl NullDeref) \<and>
   (this \<noteq> other \<and> m_content (objs this) = None \<and>
      (\<exists>p n. m_content (objs other) = Some p \<and> load h p = Inr n) \<longrightarrow>
        (\<exists>r. JsonItem_assign h objs this other = Inr r))"
proof (intro conjI impI allI)
  assume x: "m_content x = None"
  show "JsonItem_copy_ctor h x = Inl NullDeref" using x by (rule copy_ctor_invalid)
  show "JsonItem_getString h x = Inr []" using x by (rule getters_invalid)
  show "JsonItem_getInt h x = Inr 0" using x by (rule getters_invalid)
  show "JsonItem_getFloat h x = Inr 0" using x by (rule getters_invalid)
  show "JsonItem_getSize h x = Inr 0" using x by (rule getters_invalid)
  show "JsonItem_getKeys h x = Inr []" using x by (rule getters_invalid)
  show "JsonItem_contains h x key = Inr False" using x by (rule getters_invalid)
  show "JsonItem_isValid x = False" using x by (rule getters_invalid)
  show "JsonItem_isObject h x = Inr False" using x by (rule getters_invalid)
  show "JsonItem_isArray h x = Inr False" using x by (rule getters_invalid)
  show "JsonItem_isValue h x = Inr False" using x by (rule getters_invalid)
  show "JsonItem_print node_print h x indent = Inr []" using x by (rule getters_invalid)
  show "JsonItem_get_key h x key copy = Inr (h, JsonItem_ctor)"
    unfolding JsonItem_get_key_def using x by (rule getters_invalid)
  show "JsonItem_get_index h x index copy = Inr (h, JsonItem_ctor)"
    unfolding JsonItem_get_index_def using x by (rule getters_invalid)
  show "JsonItem_subscript_key h x key = Inr (h, JsonItem_ctor)"
    unfolding JsonItem_subscript_key_def using x by (rule getters_invalid)
  show "JsonItem_subscript_index h x index = Inr (h, JsonItem_ctor)"
    unfolding JsonItem_subscript_index_def using x by (rule getters_invalid)
  show "JsonItem_remove_key h x key = Inr (False, h, x)"
    unfolding JsonItem_remove_key_def using x by (rule getters_invalid)
  show "JsonItem_remove_index h x index = Inr (False, h, x)"
    unfolding JsonItem_remove_index_def using x by (rule getters_invalid)
  show "JsonItem_clear h x = Inr (h, x)" using x by (rule getters_invalid)
  show "JsonItem_setValue_string ops h x sv =
        Inr (True, h @ [Some (DataValue (setValue_string ops (new_DataValue ops) sv))],
             x\<lparr>m_content := Some (Ptr (length h) [])\<rparr>)"
    unfolding JsonItem_setValue_string_def using x by (simp add: setValue_invalid)
  show "JsonItem_setValue_int ops h x iv =
        Inr (True, h @ [Some (DataValue (setValue_int ops (new_DataValue ops) iv))],
             x\<lparr>m_content := Some (Ptr (length h) [])\<rparr>)"
    unfolding JsonItem_setValue_int_def using x by (simp add: setValue_invalid)
  show "JsonItem_setValue_float ops h x fv =
        Inr (True, h @ [Some (DataValue (setValue_float ops (new_DataValue ops) fv))],
             x\<lparr>m_content := Some (Ptr (length h) [])\<rparr>)"
    unfolding JsonItem_setValue_float_def using x by (simp add: setValue_invalid)
  show "JsonItem_insert h y key x force = Inr (False, h, y)"
    using x by (rule insert_invalid_operand)
  show "JsonItem_append h y x = Inr (False, h, y)"
    using x by (rule append_invalid_operand)
  show "JsonItem_replaceItem h y index x = Inr (False, h, y)"
    using x by (rule replaceItem_invalid_operand)
  show "JsonItem_vector_ctor h [x] =
        Inr (h @ [Some (DataArray [])],
             JsonItem_members\<lparr>m_content := Some (Ptr (length h) [])\<rparr>)"
    using x by (simp add: vector_ctor_invalid_operands)
  show "JsonItem_map_ctor h [(key, x)] =
        Inr (h @ [Some (DataObject [])],
             JsonItem_members\<lparr>m_content := Some (Ptr (length h) [])\<rparr>)"
    using x by (simp add: map_ctor_invalid_operands)
  show "\<exists>r. JsonItem_parse parser_of h x input trace = Inr r"
    using x by (auto simp: parse_invalid split: option.splits)
  {
    fix pv c
    assume v: "m_content v = Some pv \<and> load h pv = Inr c"
    show "\<exists>r. JsonItem_append h x v = Inr (True, r)"
      using x v by (simp add: append_invalid_this)
    show "\<exists>r. JsonItem_replaceItem h x index v = Inr (False, r)"
      using x v by (simp add: replaceItem_invalid_this)
    assume "key \<noteq> []"
    then show "\<exists>r. JsonItem_insert h x key v force = Inr (True, r)"
      using x v by (simp add: insert_invalid_this)
  }
next
  show "JsonItem_wrap_ctor h None copy =
     Inr (h, if copy then JsonItem_members
             else JsonItem_members\<lparr>m_content := None, m_deletable := False\<rparr>)"
    by (simp add: JsonItem_wrap_ctor_def)
next
  assume "this \<noteq> other \<and> m_content (objs other) = None \<and>
      (\<exists>r. JsonItem_clear h (objs this) = Inr r)"
  then show "JsonItem_assign h objs this other = Inl NullDeref"
    by (auto simp: assign_from_invalid)
next
  assume "this \<noteq> other \<and> m_content (objs this) = None \<and>
      (\<exists>p n. m_content (objs other) = Some p \<and> load h p = Inr n)"
  then show "\<exists>r. JsonItem_assign h objs this other = Inr r"
    by (auto simp: assign_to_invalid)
qed

theorem copy_and_assign_need_valid_source_witness:
  "JsonItem_copy_ctor [Some (DataValue (IntValue 1))] JsonItem_ctor = Inl NullDeref \<and>
   JsonItem_getInt [Some (DataValue (IntValue 1))] JsonItem_ctor = Inr 0 \<and>
   JsonItem_insert [Some (DataValue (IntValue 1))]
      \<lparr>m_content = Some (Ptr 0 []), m_deletable = True\<rparr> ''k'' JsonItem_ctor False =
     Inr (False, [Some (DataValue (IntValue 1))], \<lparr>m_content = Some (Ptr 0 []), m_deletable = True\<rparr>) \<and>
   (\<exists>r. JsonItem_append [Some (DataValue (IntValue 1))] JsonItem_ctor
      \<lparr>m_content = Some (Ptr 0 []), m_deletable = True\<rparr> = Inr (True, r)) \<and>
   JsonItem_assign [Some (DataValue (IntValue 1))]
      (\<lambda>i. if i = 0 then \<lparr>m_content = Some (Ptr 0 []), m_deletable = True\<rparr> else JsonItem_ctor)
      0 1 = Inl NullDeref"
proof -
  have c: "JsonItem_clear [Some (DataValue (IntValue 1))]
      \<lparr>m_content = Some (Ptr 0 []), m_deletable = True\<rparr> =
      Inr ([None], \<lparr>m_content = None, m_deletable = True\<rparr>)"
    by (simp add: JsonItem_clear_def delete_node_def)
  have l: "load [Some (DataValue (IntValue 1))] (Ptr 0 []) = Inr (DataValue (IntValue 1))"
    by (simp add: load_def)
  have x: "m_content JsonItem_ctor = None"
    by (simp add: JsonItem_ctor_def JsonItem_members_def)
  show ?thesis
    using c l x copy_and_assign_need_valid_source
      [where x = JsonItem_ctor and h = "[Some (DataValue (IntValue 1))]"
         and y = "\<lparr>m_content = Some (Ptr 0 []), m_deletable = True\<rparr>"
         and v = "\<lparr>m_content = Some (Ptr 0 []), m_deletable = True\<rparr>"
         and key = "''k''" and force = False
         and this = 0 and other = 1
         and objs = "\<lambda>i. if i = 0 then \<lparr>m_content = Some (Ptr 0 []), m_deletable = True\<rparr>
                         else JsonItem_ctor"]
    by simp
qed

text \<open>C10: on an invalid handle, \<^verbatim>\<open>replaceItem\<close> with a valid operand returns false and
  leaves the handle holding a new empty Array; with an invalid operand \<^verbatim>\<open>replaceItem\<close>,
  \<^verbatim>\<open>insert\<close> and \<^verbatim>\<open>append\<close> return false and change neither the handle nor the
  heap.\<close>

theorem replaceItem_materializes_before_failing:
  "(m_content this = None \<and> m_content w \<noteq> None \<longrightarrow>
      (\<exists>h' this'. JsonItem_replaceItem h this index w = Inr (False, h', this') \<and>
         JsonItem_isValid this' \<and>
         JsonItem_isArray h' this' = Inr True \<and>
         JsonItem_getSize h' this' = Inr 0 \<and>
         JsonItem_tree h' this' = Inr (Some (DataArray [])))) \<and>
   (m_content v = None \<longrightarrow>
      JsonItem_replaceItem h this index v = Inr (False, h, this) \<and>
      JsonItem_insert h this key v force = Inr (False, h, this) \<and>
      JsonItem_append h this v = Inr (False, h, this))"
proof (intro conjI impI)
  assume a: "m_content this = None \<and> m_content w \<noteq> None"
  then obtain pw where pw: "m_content w = Some pw" by auto
  let ?h = "h @ [Some (DataArray [])]"
  let ?t = "this\<lparr>m_content := Some (Ptr (length h) [])\<rparr>"
  have r: "JsonItem_replaceItem h this index w = Inr (False, ?h, ?t)"
    using a pw by (simp add: replaceItem_invalid_this)
  have l: "load ?h (Ptr (length h) []) = Inr (DataArray [])" by (rule load_alloc_new)
  have "JsonItem_isValid ?t" by (simp add: JsonItem_isValid_def)
  moreover have "JsonItem_isArray ?h ?t = Inr True"
    using l by (simp add: JsonItem_isArray_def JsonItem_isType_def)
  moreover have "JsonItem_getSize ?h ?t = Inr 0"
    using l by (simp add: JsonItem_getSize_def)
  moreover have "JsonItem_tree ?h ?t = Inr (Some (DataArray []))"
    using l by (simp add: JsonItem_tree_def)
  ultimately show "\<exists>h' this'. JsonItem_replaceItem h this index w = Inr (False, h', this') \<and>
         JsonItem_isValid this' \<and>
         JsonItem_isArray h' this' = Inr True \<and>
         JsonItem_getSize h' this' = Inr 0 \<and>
         JsonItem_tree h' this' = Inr (Some (DataArray []))"
    using r by blast
next
  assume v: "m_content v = None"
  show "JsonItem_replaceItem h this index v = Inr (False, h, this)"
    using v by (rule replaceItem_invalid_operand)
  show "JsonItem_insert h this key v force = Inr (False, h, this)"
    using v by (rule insert_invalid_operand)
  show "JsonItem_append h this v = Inr (False, h, this)"
    using v by (rule append_invalid_operand)
qed

theorem replaceItem_materializes_before_failing_witness:
  "(\<exists>h' this'. JsonItem_replaceItem [Some (DataValue (IntValue 1))] JsonItem_ctor 0
         \<lparr>m_content = Some (Ptr 0 []), m_deletable = True\<rparr> = Inr (False, h', this') \<and>
         JsonItem_isValid this' \<and>
         JsonItem_isArray h' this' = Inr True \<and>
         JsonItem_getSize h' this' = Inr 0 \<and>
         JsonItem_tree h' this' = Inr (Some (DataArray []))) \<and>
   JsonItem_replaceItem [Some (DataValue (IntValue 1))] JsonItem_ctor 0 JsonItem_ctor =
     Inr (False, [Some (DataValue (IntValue 1))], JsonItem_ctor) \<and>
   JsonItem_insert [Some (DataValue (IntValue 1))] JsonItem_ctor ''k'' JsonItem_ctor True =
     Inr (False, [Some (DataValue (IntValue 1))], JsonItem_ctor) \<and>
   JsonItem_append [Some (DataValue (IntValue 1))] JsonItem_ctor JsonItem_ctor =
     Inr (False, [Some (DataValue (IntValue 1))], JsonItem_ctor) \<and>
   \<not> JsonItem_isValid JsonItem_ctor"
proof -
  have x: "m_content JsonItem_ctor = None"
    by (simp add: JsonItem_ctor_def JsonItem_members_def)
  have i: "\<not> JsonItem_isValid JsonItem_ctor"
    using x by (simp add: JsonItem_isValid_def)
  show ?thesis
    using x i replaceItem_materializes_before_failing
      [where this = JsonItem_ctor and h = "[Some (DataValue (IntValue 1))]"
         and w = "\<lparr>m_content = Some (Ptr 0 []), m_deletable = True\<rparr>"
         and v = JsonItem_ctor and index = 0 and key = "''k''" and force = True]
    by simp
qed

subsection \<open>Well-formed handles\<close>

lemma live_iff: "live h p \<longleftrightarrow> (\<exists>n. load h p = Inr n)"
  by (simp add: live_def split: sum.splits)

lemma live_root_cell: "live h (Ptr a []) \<longleftrightarrow> a < length h \<and> h ! a \<noteq> None"
  by (auto simp: live_def load_def split: option.splits)

lemma live_append: "live h p \<Longrightarrow> live (h @ xs) p"
proof -
  assume "live h p"
  then obtain n where n: "load h p = Inr n" by (auto simp: live_iff)
  then have "ptr_root p < length h" by (rule load_Inr_root)
  then have "load (h @ xs) p = load h p" by (rule load_append_old)
  with n show ?thesis by (simp add: live_iff)
qed

lemma wf_append: "JsonItem_wf h this \<Longrightarrow> JsonItem_wf (h @ xs) this"
  by (auto simp: JsonItem_wf_def live_append split: option.splits)

lemma clear_wf:
  assumes "JsonItem_wf h this"
  shows "JsonItem_clear h this =
     (case m_content this of
        None \<Rightarrow> Inr (h, this)
      | Some p \<Rightarrow>
          if m_deletable this then Inr (h[ptr_root p := None], this\<lparr>m_content := None\<rparr>)
          else Inr (h, this))"
proof (cases "m_content this")
  case None
  then show ?thesis by (simp add: JsonItem_clear_def)
next
  case (Some p)
  show ?thesis
  proof (cases "m_deletable this")
    case True
    with Some assms have "ptr_path p = []" "live h p" by (auto simp: JsonItem_wf_def)
    then have "live h (Ptr (ptr_root p) [])" by (cases p) simp
    then have "ptr_root p < length h \<and> h ! ptr_root p \<noteq> None" by (simp add: live_root_cell)
    with Some True \<open>ptr_path p = []\<close> show ?thesis
      by (simp add: JsonItem_clear_def delete_node_def)
  next
    case False
    with Some show ?thesis by (simp add: JsonItem_clear_def)
  qed
qed

lemma load_deleted: "ptr_root p < length h \<Longrightarrow> load (h[ptr_root p := None]) p = Inl Dangling"
  by (simp add: load_def)

subsection \<open>parse\<close>

text \<open>C6: a failed parse returns \<open>(false, errorMessage)\<close> and changes neither the handle
  nor the heap. A successful parse returns \<open>(true, "")\<close>; the handle then holds the
  parser's output tree, and its prior content has been cleared first: deleted if the
  handle owned it, left alone if it did not.\<close>

theorem parse_keeps_or_replaces_content:
  "(parse_result (parser_of trace input) = False \<longrightarrow>
      JsonItem_parse parser_of h this input trace =
        Inr ((False, getErrorMessage (parser_of trace input)), h, this)) \<and>
   (parse_result (parser_of trace input) = True \<and> JsonItem_wf h this \<longrightarrow>
      (\<exists>h' this'.
         JsonItem_parse parser_of h this input trace = Inr ((True, []), h', this') \<and>
         JsonItem_tree h' this' = Inr (getOutput (parser_of trace input)) \<and>
         m_deletable this' = m_deletable this \<and>
         (\<forall>p. m_content this = Some p \<longrightarrow>
            (if m_deletable this then \<not> live h' p else load h' p = load h p))))"
proof (intro conjI impI)
  assume "parse_result (parser_of trace input) = False"
  then show "JsonItem_parse parser_of h this input trace =
        Inr ((False, getErrorMessage (parser_of trace input)), h, this)"
    by (simp add: JsonItem_parse_def Let_def)
next
  let ?P = "parser_of trace input"
  assume a: "parse_result ?P = True \<and> JsonItem_wf h this"
  show "\<exists>h' this'.
         JsonItem_parse parser_of h this input trace = Inr ((True, []), h', this') \<and>
         JsonItem_tree h' this' = Inr (getOutput ?P) \<and>
         m_deletable this' = m_deletable this \<and>
         (\<forall>p. m_content this = Some p \<longrightarrow>
            (if m_deletable this then \<not> live h' p else load h' p = load h p))"
  proof (cases "getOutput ?P")
    case None
    have c: "JsonItem_clear h this =
     (case m_content this of
        None \<Rightarrow> Inr (h, this)
      | Some p \<Rightarrow>
          if m_deletable this then Inr (h[ptr_root p := None], this\<lparr>m_content := None\<rparr>)
          else Inr (h, this))"
      using a by (simp add: clear_wf)
    show ?thesis
    proof (cases "m_content this")
      case N: None
      with None a c show ?thesis
        by (simp add: JsonItem_parse_def Let_def JsonItem_tree_def)
    next
      case (Some p)
      with a have lp: "live h p" by (simp add: JsonItem_wf_def)
      then have r: "ptr_root p < length h" by (auto simp: live_iff dest: load_Inr_root)
      show ?thesis
      proof (cases "m_deletable this")
        case True
        with None a c Some r show ?thesis
          by (simp add: JsonItem_parse_def Let_def JsonItem_tree_def live_def load_deleted)
      next
        case False
        with None a c Some show ?thesis
          by (simp add: JsonItem_parse_def Let_def JsonItem_tree_def)
      qed
    qed
  next
    case (Some t)
    let ?h0 = "h @ [Some t]"
    let ?q = "Ptr (length h) []"
    have wf0: "JsonItem_wf ?h0 this" using a by (simp add: wf_append)
    have c: "JsonItem_clear ?h0 this =
     (case m_content this of
        None \<Rightarrow> Inr (?h0, this)
      | Some p \<Rightarrow>
          if m_deletable this then Inr (?h0[ptr_root p := None], this\<lparr>m_content := None\<rparr>)
          else Inr (?h0, this))"
      using wf0 by (rule clear_wf)
    have lq: "load ?h0 ?q = Inr t" by (rule load_alloc_new)
    show ?thesis
    proof (cases "m_content this")
      case None
      with Some a c lq show ?thesis
        by (simp add: JsonItem_parse_def Let_def JsonItem_tree_def alloc_def)
    next
      case P: (Some p)
      with a have lp: "live h p" by (simp add: JsonItem_wf_def)
      then have r: "ptr_root p < length h" by (auto simp: live_iff dest: load_Inr_root)
      show ?thesis
      proof (cases "m_deletable this")
        case True
        have r0: "ptr_root p < length ?h0" using r by simp
        have d: "load (?h0[ptr_root p := None]) p = Inl Dangling"
          using r0 by (rule load_deleted)
        have ne: "ptr_root p \<noteq> ptr_root ?q" using r by simp
        have lq': "load (?h0[ptr_root p := None]) ?q = Inr t"
          using lq ne by (simp add: load_update_other)
        from Some a c P True d lq' show ?thesis
          by (simp add: JsonItem_parse_def Let_def JsonItem_tree_def alloc_def live_def)
      next
        case False
        have "load ?h0 p = load h p" using r by (rule load_append_old)
        with Some a c P False lq show ?thesis
          by (simp add: JsonItem_parse_def Let_def JsonItem_tree_def alloc_def)
      qed
    qed
  qed
qed

theorem parse_keeps_or_replaces_content_witness:
  "JsonItem_parse
      (\<lambda>tr inp. if inp = ''[]''
         then \<lparr>parse_result = True, getErrorMessage = [], getOutput = Some (DataArray [])\<rparr>
         else \<lparr>parse_result = False, getErrorMessage = ''syntax error'', getOutput = None\<rparr>)
      [Some (DataValue (IntValue 1))] \<lparr>m_content = Some (Ptr 0 []), m_deletable = True\<rparr>
      ''x'' False =
     Inr ((False, ''syntax error''), [Some (DataValue (IntValue 1))],
          \<lparr>m_content = Some (Ptr 0 []), m_deletable = True\<rparr>) \<and>
   (\<exists>h' this'.
      JsonItem_parse
        (\<lambda>tr inp. if inp = ''[]''
           then \<lparr>parse_result = True, getErrorMessage = [], getOutput = Some (DataArray [])\<rparr>
           else \<lparr>parse_result = False, getErrorMessage = ''syntax error'', getOutput = None\<rparr>)
        [Some (DataValue (IntValue 1))] \<lparr>m_content = Some (Ptr 0 []), m_deletable = True\<rparr>
        ''[]'' False = Inr ((True, []), h', this') \<and>
      JsonItem_tree h' this' = Inr (Some (DataArray [])) \<and>
      \<not> live h' (Ptr 0 []))"
proof -
  have w: "JsonItem_wf [Some (DataValue (IntValue 1))]
      \<lparr>m_content = Some (Ptr 0 []), m_deletable = True\<rparr>"
    by (simp add: JsonItem_wf_def live_def load_def)
  show ?thesis
    using w
      parse_keeps_or_replaces_content
        [where parser_of = "\<lambda>tr inp. if inp = ''[]''
           then \<lparr>parse_result = True, getErrorMessage = [], getOutput = Some (DataArray [])\<rparr>
           else \<lparr>parse_result = False, getErrorMessage = ''syntax error'', getOutput = None\<rparr>"
         and h = "[Some (DataValue (IntValue 1))]"
         and this = "\<lparr>m_content = Some (Ptr 0 []), m_deletable = True\<rparr>"
         and input = "''x''" and trace = False]
      parse_keeps_or_replaces_content
        [where parser_of = "\<lambda>tr inp. if inp = ''[]''
           then \<lparr>parse_result = True, getErrorMessage = [], getOutput = Some (DataArray [])\<rparr>
           else \<lparr>parse_result = False, getErrorMessage = ''syntax error'', getOutput = None\<rparr>"
         and h = "[Some (DataValue (IntValue 1))]"
         and this = "\<lparr>m_content = Some (Ptr 0 []), m_deletable = True\<rparr>"
         and input = "''[]''" and trace = False]
    by simp blast
qed

subsection \<open>Assignment\<close>

lemma assign_self: "JsonItem_assign h objs a a = Inr (h, objs)"
  by (simp add: JsonItem_assign_def)

lemma assign_owner:
  assumes "this \<noteq> other"
    and "m_content (objs this) = Some pa" and "m_deletable (objs this)"
    and "JsonItem_wf h (objs this)"
    and "m_content (objs other) = Some p" and "load h p = Inr n"
    and "ptr_root p \<noteq> ptr_root pa"
  shows "\<exists>h' objs'. JsonItem_assign h objs this other = Inr (h', objs') \<and>
           (\<forall>i. i \<noteq> this \<longrightarrow> objs' i = objs i) \<and>
           m_deletable (objs' this) \<and>
           m_content (objs' this) = Some (Ptr (length h) []) \<and>
           JsonItem_tree h' (objs' this) = Inr (Some n) \<and>
           JsonItem_tree h' (objs' other) = Inr (Some n) \<and>
           \<not> live h' pa"
proof -
  let ?h1 = "h[ptr_root pa := None]"
  let ?t1 = "(objs this)\<lparr>m_content := None\<rparr>"
  have c: "JsonItem_clear h (objs this) = Inr (?h1, ?t1)"
    using assms(2,3,4) by (simp add: clear_wf)
  have "live h pa" using assms(2,4) by (simp add: JsonItem_wf_def)
  then have ra: "ptr_root pa < length h" by (auto simp: live_iff dest: load_Inr_root)
  have l1: "load ?h1 p = Inr n" using assms(6,7) by (simp add: load_update_other)
  have cp: "DataItem_copy ?h1 p = Inr (?h1 @ [Some n], Ptr (length h) [])"
    using l1 by (simp add: DataItem_copy_def alloc_def)
  let ?objs' = "(objs(this := ?t1))(this := ?t1\<lparr>m_content := Some (Ptr (length h) [])\<rparr>)"
  have r: "JsonItem_assign h objs this other = Inr (?h1 @ [Some n], ?objs')"
    using assms(1,5) c cp by (simp add: JsonItem_assign_def Let_def)
  have d: "load (?h1 @ [Some n]) pa = Inl Dangling"
    using ra by (simp add: load_append_old load_deleted)
  have ln: "load (?h1 @ [Some n]) (Ptr (length h) []) = Inr n"
    using load_alloc_new[of ?h1 n] by simp
  have rp: "ptr_root p < length ?h1" using l1 by (rule load_Inr_root)
  have lo: "load (?h1 @ [Some n]) p = Inr n"
    using l1 rp by (simp add: load_append_old)
  show ?thesis
    using r d ln lo assms(1,3,5)
    by (auto simp: JsonItem_tree_def live_def)
qed

text \<open>C7: assigning to a non-owning handle leaves it non-owning: the deep copy it now
  holds is not deleted by \<^verbatim>\<open>clear()\<close>, hence not by the destructor. Handle 2 owns an
  Object, handle 0 is the view \<^verbatim>\<open>get("k", false)\<close> of its child, handle 1 owns the
  scalar 5; then \<open>0 = 1\<close> is run.\<close>

theorem assign_into_view_stays_non_owning:
  "JsonItem_get_key
      [Some (DataObject [(''k'', DataValue (IntValue 1))]), Some (DataValue (IntValue 5))]
      \<lparr>m_content = Some (Ptr 0 []), m_deletable = True\<rparr> ''k'' False =
     Inr ([Some (DataObject [(''k'', DataValue (IntValue 1))]), Some (DataValue (IntValue 5))],
          \<lparr>m_content = Some (Ptr 0 [Key ''k'']), m_deletable = False\<rparr>) \<and>
   JsonItem_assign
      [Some (DataObject [(''k'', DataValue (IntValue 1))]), Some (DataValue (IntValue 5))]
      ((\<lambda>i. \<lparr>m_content = Some (Ptr 0 []), m_deletable = True\<rparr>)
         (1 := \<lparr>m_content = Some (Ptr 1 []), m_deletable = True\<rparr>,
          0 := \<lparr>m_content = Some (Ptr 0 [Key ''k'']), m_deletable = False\<rparr>))
      0 1 =
     Inr ([Some (DataObject [(''k'', DataValue (IntValue 1))]), Some (DataValue (IntValue 5)),
           Some (DataValue (IntValue 5))],
          (\<lambda>i. \<lparr>m_content = Some (Ptr 0 []), m_deletable = True\<rparr>)
            (1 := \<lparr>m_content = Some (Ptr 1 []), m_deletable = True\<rparr>,
             0 := \<lparr>m_content = Some (Ptr 2 []), m_deletable = False\<rparr>)) \<and>
   JsonItem_clear
      [Some (DataObject [(''k'', DataValue (IntValue 1))]), Some (DataValue (IntValue 5)),
       Some (DataValue (IntValue 5))]
      \<lparr>m_content = Some (Ptr 2 []), m_deletable = False\<rparr> =
     Inr ([Some (DataObject [(''k'', DataValue (IntValue 1))]), Some (DataValue (IntValue 5)),
           Some (DataValue (IntValue 5))],
          \<lparr>m_content = Some (Ptr 2 []), m_deletable = False\<rparr>) \<and>
   live [Some (DataObject [(''k'', DataValue (IntValue 1))]), Some (DataValue (IntValue 5)),
         Some (DataValue (IntValue 5))] (Ptr 2 [])"
  by (simp add: JsonItem_get_key_def JsonItem_get_def DataItem_get_def JsonItem_wrap_ctor_def
      JsonItem_members_def JsonItem_assign_def JsonItem_clear_def DataItem_copy_def alloc_def
      load_def live_def Let_def numeral_2_eq_2)

subsection \<open>Mutators on a handle that has content\<close>

lemma store_append_old:
  "ptr_root p < length h \<Longrightarrow>
   store (h @ xs) p n = (case store h p n of Inl e \<Rightarrow> Inl e | Inr h' \<Rightarrow> Inr (h' @ xs))"
  by (simp add: store_def nth_append list_update_append1 split: option.splits)

lemma load_child:
  "load h p = Inr n \<Longrightarrow> child n s = Some c \<Longrightarrow>
   load h (Ptr (ptr_root p) (ptr_path p @ [s])) = Inr c"
  by (auto simp: load_def subtree_append split: if_splits option.splits)

lemma get_view:
  assumes "m_content this = Some p" "load h p = Inr n" "child n s = Some c"
  shows "JsonItem_get h this s False =
           Inr (h, \<lparr>m_content = Some (Ptr (ptr_root p) (ptr_path p @ [s])), m_deletable = False\<rparr>)"
  using assms
  by (simp add: JsonItem_get_def DataItem_get_def JsonItem_wrap_ctor_def JsonItem_members_def)

lemma copy_live:
  "load h pv = Inr c \<Longrightarrow> DataItem_copy h pv = Inr (h @ [Some c], Ptr (length h) [])"
  by (simp add: DataItem_copy_def alloc_def)

lemma insert_object:
  assumes "m_content this = Some p" "load h p = Inr (DataObject kvs)"
    and "m_content v = Some pv" "load h pv = Inr c" "key \<noteq> []"
  shows "JsonItem_insert h this key v force =
     (if map_of kvs key \<noteq> None \<and> \<not> force then Inr (False, h @ [Some c], this)
      else (case store h p (DataObject (AList.update key c kvs)) of
              Inl e \<Rightarrow> Inl e
            | Inr h' \<Rightarrow> Inr (True, h' @ [None], this)))"
proof -
  have r: "ptr_root p < length h" using assms(2) by (rule load_Inr_root)
  have l2: "load (h @ [Some c]) p = Inr (DataObject kvs)"
    using assms(2) r by (simp add: load_append_old)
  have st: "store (h @ [None]) p n =
     (case store h p n of Inl e \<Rightarrow> Inl e | Inr h' \<Rightarrow> Inr (h' @ [None]))" for n
    using r by (rule store_append_old)
  have ins: "DataObject_insert (h @ [Some c]) p key (Ptr (length h) []) force =
     (if map_of kvs key \<noteq> None \<and> \<not> force then Inr (False, h @ [Some c])
      else (case store h p (DataObject (AList.update key c kvs)) of
              Inl e \<Rightarrow> Inl e
            | Inr h' \<Rightarrow> Inr (True, h' @ [None])))"
    unfolding DataObject_insert_def using l2
    by (simp add: take_root_alloc_new st split: sum.splits)
  show ?thesis
    unfolding JsonItem_insert_def
    using assms ins
    by (simp add: materialize_present copy_live split: sum.splits)
qed

lemma insert_success_post:
  assumes "JsonItem_insert h this key v force = Inr (True, h1, this1)"
    and "m_content v = Some pv" "load h pv = Inr c"
  shows "\<exists>p1 kvs1. m_content this1 = Some p1 \<and> load h1 p1 = Inr (DataObject kvs1) \<and>
           map_of kvs1 key = Some c \<and> key \<noteq> []"
proof -
  have k: "key \<noteq> []" using assms(1,2) by (auto simp: JsonItem_insert_def split: if_splits)
  show ?thesis
  proof (cases "m_content this")
    case None
    have "JsonItem_insert h this key v force =
     Inr (True, h @ [Some (DataObject [(key, c)]), None],
          this\<lparr>m_content := Some (Ptr (length h) [])\<rparr>)"
      using None assms(2,3) k by (rule insert_invalid_this)
    with assms(1) have e: "h1 = h @ [Some (DataObject [(key, c)]), None]"
      "this1 = this\<lparr>m_content := Some (Ptr (length h) [])\<rparr>" by auto
    have "load h1 (Ptr (length h) []) = Inr (DataObject [(key, c)])"
      unfolding e by (simp add: load_def nth_append)
    with e k show ?thesis by auto
  next
    case (Some p)
    from assms(1,2) Some k obtain n where n: "load h p = Inr n" "getType n = OBJECT_TYPE"
      by (auto simp: JsonItem_insert_def materialize_present split: sum.splits if_splits)
    then obtain kvs where kvs: "n = DataObject kvs" by (auto simp: getType_OBJECT)
    have io: "JsonItem_insert h this key v force =
     (if map_of kvs key \<noteq> None \<and> \<not> force then Inr (False, h @ [Some c], this)
      else (case store h p (DataObject (AList.update key c kvs)) of
              Inl e \<Rightarrow> Inl e
            | Inr h' \<Rightarrow> Inr (True, h' @ [None], this)))"
      using Some n(1) assms(2,3) k unfolding kvs by (rule insert_object)
    with assms(1) obtain h' where h': "store h p (DataObject (AList.update key c kvs)) = Inr h'"
      "h1 = h' @ [None]" "this1 = this"
      by (auto split: if_splits sum.splits)
    have l: "load h' p = Inr (DataObject (AList.update key c kvs))"
      using h'(1) by (rule load_store_same)
    then have "ptr_root p < length h'" by (rule load_Inr_root)
    then have "load h1 p = Inr (DataObject (AList.update key c kvs))"
      unfolding h'(2) using l by (simp add: load_append_old)
    moreover have "map_of (AList.update key c kvs) key = Some c"
      by (simp add: update_conv')
    ultimately show ?thesis using Some h'(3) k by auto
  qed
qed

lemma value_at_key:
  assumes "m_content this = Some p" "load h p = Inr (DataObject kvs)" "map_of kvs key = Some c"
  shows "\<exists>view. JsonItem_get_key h this key False = Inr (h, view) \<and>
           JsonItem_tree h view = Inr (Some c)"
proof -
  have ch: "child (DataObject kvs) (Key key) = Some c" using assms(3) by simp
  let ?view = "\<lparr>m_content = Some (Ptr (ptr_root p) (ptr_path p @ [Key key])), m_deletable = False\<rparr>"
  have "JsonItem_get_key h this key False = Inr (h, ?view)"
    unfolding JsonItem_get_key_def using assms(1,2) ch by (rule get_view)
  moreover have "JsonItem_tree h ?view = Inr (Some c)"
    using load_child[OF assms(2) ch] by (simp add: JsonItem_tree_def)
  ultimately show ?thesis by blast
qed

text \<open>C2: once \<^verbatim>\<open>insert(key, x)\<close> has succeeded, \<^verbatim>\<open>insert(key, y, false)\<close> returns false
  and the value at the key is still the copy of \<open>x\<close>; \<^verbatim>\<open>insert(key, y, true)\<close> returns
  true and the value at the key is the copy of \<open>y\<close>.\<close>

theorem insert_existing_key_needs_force:
  assumes "JsonItem_insert h this key x force0 = Inr (True, h1, this1)"
    and "m_content x = Some px" and "load h px = Inr xv"
    and "m_content y = Some py" and "load h1 py = Inr yv"
  shows "(\<exists>h2 view. JsonItem_insert h1 this1 key y False = Inr (False, h2, this1) \<and>
            JsonItem_get_key h2 this1 key False = Inr (h2, view) \<and>
            JsonItem_tree h2 view = Inr (Some xv)) \<and>
         (\<exists>h3 view. JsonItem_insert h1 this1 key y True = Inr (True, h3, this1) \<and>
            JsonItem_get_key h3 this1 key False = Inr (h3, view) \<and>
            JsonItem_tree h3 view = Inr (Some yv))"
proof -
  from insert_success_post[OF assms(1,2,3)] obtain p1 kvs1
    where p1: "m_content this1 = Some p1" "load h1 p1 = Inr (DataObject kvs1)"
      "map_of kvs1 key = Some xv" "key \<noteq> []" by blast
  have r: "ptr_root p1 < length h1" using p1(2) by (rule load_Inr_root)
  have io: "JsonItem_insert h1 this1 key y force =
     (if map_of kvs1 key \<noteq> None \<and> \<not> force then Inr (False, h1 @ [Some yv], this1)
      else (case store h1 p1 (DataObject (AList.update key yv kvs1)) of
              Inl e \<Rightarrow> Inl e
            | Inr h' \<Rightarrow> Inr (True, h' @ [None], this1)))" for force
    using p1(1,2) assms(4,5) p1(4) by (rule insert_object)
  have no: "JsonItem_insert h1 this1 key y False = Inr (False, h1 @ [Some yv], this1)"
    using io[of False] p1(3) by simp
  have l2: "load (h1 @ [Some yv]) p1 = Inr (DataObject kvs1)"
    using p1(2) r by (simp add: load_append_old)
  from value_at_key[OF p1(1) l2 p1(3)] no
  have A: "\<exists>h2 view. JsonItem_insert h1 this1 key y False = Inr (False, h2, this1) \<and>
            JsonItem_get_key h2 this1 key False = Inr (h2, view) \<and>
            JsonItem_tree h2 view = Inr (Some xv)" by blast
  from store_exists[OF p1(2)] obtain h' where
    h': "store h1 p1 (DataObject (AList.update key yv kvs1)) = Inr h'" by blast
  have yes: "JsonItem_insert h1 this1 key y True = Inr (True, h' @ [None], this1)"
    using io[of True] h' by simp
  have l: "load h' p1 = Inr (DataObject (AList.update key yv kvs1))"
    using h' by (rule load_store_same)
  then have "ptr_root p1 < length h'" by (rule load_Inr_root)
  then have l3: "load (h' @ [None]) p1 = Inr (DataObject (AList.update key yv kvs1))"
    using l by (simp add: load_append_old)
  have m: "map_of (AList.update key yv kvs1) key = Some yv" by (simp add: update_conv')
  from value_at_key[OF p1(1) l3 m] yes
  have B: "\<exists>h3 view. JsonItem_insert h1 this1 key y True = Inr (True, h3, this1) \<and>
            JsonItem_get_key h3 this1 key False = Inr (h3, view) \<and>
            JsonItem_tree h3 view = Inr (Some yv)" by blast
  from A B show ?thesis by blast
qed

theorem insert_existing_key_needs_force_witness:
  "(\<exists>h2 view.
      JsonItem_insert [Some (DataValue (IntValue 1)), Some (DataValue (IntValue 2)),
                       Some (DataObject [(''a'', DataValue (IntValue 1))]), None]
        \<lparr>m_content = Some (Ptr 2 []), m_deletable = True\<rparr> ''a''
        \<lparr>m_content = Some (Ptr 1 []), m_deletable = True\<rparr> False =
        Inr (False, h2, \<lparr>m_content = Some (Ptr 2 []), m_deletable = True\<rparr>) \<and>
      JsonItem_get_key h2 \<lparr>m_content = Some (Ptr 2 []), m_deletable = True\<rparr> ''a'' False =
        Inr (h2, view) \<and>
      JsonItem_tree h2 view = Inr (Some (DataValue (IntValue 1)))) \<and>
   (\<exists>h3 view.
      JsonItem_insert [Some (DataValue (IntValue 1)), Some (DataValue (IntValue 2)),
                       Some (DataObject [(''a'', DataValue (IntValue 1))]), None]
        \<lparr>m_content = Some (Ptr 2 []), m_deletable = True\<rparr> ''a''
        \<lparr>m_content = Some (Ptr 1 []), m_deletable = True\<rparr> True =
        Inr (True, h3, \<lparr>m_content = Some (Ptr 2 []), m_deletable = True\<rparr>) \<and>
      JsonItem_get_key h3 \<lparr>m_content = Some (Ptr 2 []), m_deletable = True\<rparr> ''a'' False =
        Inr (h3, view) \<and>
      JsonItem_tree h3 view = Inr (Some (DataValue (IntValue 2))))"
proof -
  let ?h = "[Some (DataValue (IntValue 1)), Some (DataValue (IntValue 2))]"
  let ?x = "\<lparr>m_content = Some (Ptr 0 []), m_deletable = True\<rparr>"
  let ?y = "\<lparr>m_content = Some (Ptr 1 []), m_deletable = True\<rparr>"
  have lx: "load ?h (Ptr 0 []) = Inr (DataValue (IntValue 1))" by (simp add: load_def)
  have first: "JsonItem_insert ?h JsonItem_ctor ''a'' ?x False =
     Inr (True, [Some (DataValue (IntValue 1)), Some (DataValue (IntValue 2)),
                 Some (DataObject [(''a'', DataValue (IntValue 1))]), None],
          \<lparr>m_content = Some (Ptr 2 []), m_deletable = True\<rparr>)"
    using insert_invalid_this[of JsonItem_ctor ?x "Ptr 0 []" ?h "DataValue (IntValue 1)" "''a''" False] lx
    by (simp add: JsonItem_ctor_def JsonItem_members_def)
  have ly: "load [Some (DataValue (IntValue 1)), Some (DataValue (IntValue 2)),
                 Some (DataObject [(''a'', DataValue (IntValue 1))]), None] (Ptr 1 []) =
      Inr (DataValue (IntValue 2))" by (simp add: load_def)
  show ?thesis
    by (rule insert_existing_key_needs_force[OF first _ lx _ ly]) simp_all
qed

subsection \<open>Arrays built by append\<close>

lemma replaceItem_array:
  assumes "m_content this = Some p" "load h p = Inr (DataArray xs)"
    and "m_content v = Some pv" "load h pv = Inr c"
  shows "JsonItem_replaceItem h this index v =
     (if unat index < length xs then
        (case store h p (DataArray (xs[unat index := c])) of
           Inl e \<Rightarrow> Inl e
         | Inr h' \<Rightarrow> Inr (True, h' @ [None, Some (xs ! unat index)], this))
      else Inr (False, h, this))"
proof -
  have r: "ptr_root p < length h" using assms(2) by (rule load_Inr_root)
  have l2: "load (h @ [Some c]) p = Inr (DataArray xs)"
    using assms(2) r by (simp add: load_append_old)
  have st: "store (h @ [None]) p n =
     (case store h p n of Inl e \<Rightarrow> Inl e | Inr h' \<Rightarrow> Inr (h' @ [None]))" for n
    using r by (rule store_append_old)
  have asg: "unat index < length xs \<Longrightarrow>
     DataArray_assign (h @ [Some c]) p (unat index) (Ptr (length h) []) =
     (case store h p (DataArray (xs[unat index := c])) of
        Inl e \<Rightarrow> Inl e
      | Inr h' \<Rightarrow> Inr (h' @ [None, Some (xs ! unat index)]))"
    unfolding DataArray_assign_def using l2
    by (simp add: take_root_alloc_new st split: sum.splits)
  show ?thesis
    unfolding JsonItem_replaceItem_def
    using assms asg
    by (simp add: materialize_present copy_live split: sum.splits)
qed

lemma append_core:
  assumes "materialize (DataArray []) h this = (h0, this0, p)"
    and "load h0 p = Inr (DataArray xs)"
    and "m_content v = Some pv" "load h0 pv = Inr c"
  shows "JsonItem_append h this v =
     (case store h0 p (DataArray (xs @ [c])) of
        Inl e \<Rightarrow> Inl e
      | Inr h' \<Rightarrow> Inr (True, h' @ [None], this0))"
proof -
  have r: "ptr_root p < length h0" using assms(2) by (rule load_Inr_root)
  have l2: "load (h0 @ [Some c]) p = Inr (DataArray xs)"
    using assms(2) r by (simp add: load_append_old)
  have st: "store (h0 @ [None]) p n =
     (case store h0 p n of Inl e \<Rightarrow> Inl e | Inr h' \<Rightarrow> Inr (h' @ [None]))" for n
    using r by (rule store_append_old)
  have ins: "DataArray_append (h0 @ [Some c]) p (Ptr (length h0) []) =
     (case store h0 p (DataArray (xs @ [c])) of
        Inl e \<Rightarrow> Inl e
      | Inr h' \<Rightarrow> Inr (True, h' @ [None]))"
    unfolding DataArray_append_def using l2
    by (simp add: take_root_alloc_new st split: sum.splits)
  show ?thesis
    unfolding JsonItem_append_def
    using assms ins
    by (simp add: copy_live split: sum.splits)
qed

lemma materialize_content:
  "materialize n h this = (h0, this0, p) \<Longrightarrow> m_content this0 = Some p"
  by (auto simp: materialize_def alloc_def split: option.splits)

lemma append_step:
  assumes "JsonItem_append h this v = Inr (True, h1, this1)"
    and "JsonItem_tree h this = Inr None \<and> xs = [] \<or> JsonItem_tree h this = Inr (Some (DataArray xs))"
  shows "\<exists>c. JsonItem_tree h1 this1 = Inr (Some (DataArray (xs @ [c])))"
proof -
  from assms(1) obtain pv where pv: "m_content v = Some pv"
    by (auto simp: JsonItem_append_def split: option.splits)
  obtain h0 this0 p where m: "materialize (DataArray []) h this = (h0, this0, p)"
    by (cases "materialize (DataArray []) h this") auto
  have c0: "m_content this0 = Some p" using m by (rule materialize_content)
  have l0: "load h0 p = Inr (DataArray xs)"
  proof (cases "m_content this")
    case None
    with assms(2) have "xs = []" by (auto simp: JsonItem_tree_def)
    with None m show ?thesis by (auto simp: materialize_absent load_alloc_new)
  next
    case (Some q)
    with assms(2) have "load h q = Inr (DataArray xs)"
      by (auto simp: JsonItem_tree_def split: sum.splits)
    with Some m show ?thesis by (auto simp: materialize_present)
  qed
  obtain c where c: "load h0 pv = Inr c"
  proof (cases "load h0 pv")
    case (Inl e)
    with assms(1) pv m l0 have False
      by (simp add: JsonItem_append_def DataItem_copy_def)
    then show ?thesis ..
  next
    case (Inr c)
    then show ?thesis by (rule that)
  qed
  have "JsonItem_append h this v =
     (case store h0 p (DataArray (xs @ [c])) of
        Inl e \<Rightarrow> Inl e
      | Inr h' \<Rightarrow> Inr (True, h' @ [None], this0))"
    using m l0 pv c by (rule append_core)
  with assms(1) obtain h' where h': "store h0 p (DataArray (xs @ [c])) = Inr h'"
    "h1 = h' @ [None]" "this1 = this0"
    by (auto split: sum.splits)
  have l: "load h' p = Inr (DataArray (xs @ [c]))" using h'(1) by (rule load_store_same)
  then have "ptr_root p < length h'" by (rule load_Inr_root)
  then have "load h1 p = Inr (DataArray (xs @ [c]))"
    unfolding h'(2) using l by (simp add: load_append_old)
  then have "JsonItem_tree h1 this1 = Inr (Some (DataArray (xs @ [c])))"
    using c0 h'(3) by (simp add: JsonItem_tree_def)
  then show ?thesis ..
qed

lemma append_all_post:
  "append_all h this vs = Inr (bs, h1, this1) \<Longrightarrow> set bs \<subseteq> {True} \<Longrightarrow>
   JsonItem_tree h this = Inr None \<and> xs = [] \<or> JsonItem_tree h this = Inr (Some (DataArray xs)) \<Longrightarrow>
   vs \<noteq> [] \<or> JsonItem_tree h this \<noteq> Inr None \<Longrightarrow>
   \<exists>ys. JsonItem_tree h1 this1 = Inr (Some (DataArray (xs @ ys))) \<and> length ys = length vs"
proof (induction vs arbitrary: h this xs bs)
  case Nil
  then show ?case by auto
next
  case (Cons v vs)
  from Cons.prems(1) obtain b h' this' bs' where
    s: "JsonItem_append h this v = Inr (b, h', this')"
    "append_all h' this' vs = Inr (bs', h1, this1)" "bs = b # bs'"
    by (auto split: sum.splits)
  with Cons.prems(2) have b: "b = True" "set bs' \<subseteq> {True}" by auto
  from append_step[OF s(1)[unfolded b(1)] Cons.prems(3)] obtain c
    where c: "JsonItem_tree h' this' = Inr (Some (DataArray (xs @ [c])))" by blast
  from Cons.IH[OF s(2) b(2), of "xs @ [c]"] c obtain ys where
    "JsonItem_tree h1 this1 = Inr (Some (DataArray ((xs @ [c]) @ ys)))" "length ys = length vs"
    by auto
  then have "JsonItem_tree h1 this1 = Inr (Some (DataArray (xs @ (c # ys))))
     \<and> length (c # ys) = length (v # vs)" by simp
  then show ?case by blast
qed

lemma unat_index: "n < 2 ^ 32 \<Longrightarrow> unat (of_nat n :: 32 word) = n"
  by (simp add: unat_of_nat)

lemma tree_content:
  "JsonItem_tree h this = Inr (Some n) \<Longrightarrow> \<exists>p. m_content this = Some p \<and> load h p = Inr n"
  by (auto simp: JsonItem_tree_def split: option.splits sum.splits)

text \<open>C5: after \<open>N\<close> successful calls of \<^verbatim>\<open>append\<close> on a handle that was invalid or held
  an empty Array, the handle holds an Array of size \<open>N\<close>; \<^verbatim>\<open>replaceItem(N, w)\<close> returns
  false and changes nothing; \<^verbatim>\<open>replaceItem(N-1, w)\<close> returns true and the Array then has
  the copy of \<open>w\<close> at index \<open>N-1\<close> and its other elements as before.\<close>

theorem replaceItem_checks_array_bounds:
  assumes "JsonItem_tree h this = Inr None \<or> JsonItem_tree h this = Inr (Some (DataArray []))"
    and "append_all h this vs = Inr (replicate (length vs) True, h1, this1)"
    and "vs \<noteq> []" and "length vs < 2 ^ 32"
    and "m_content w = Some pw" and "load h1 pw = Inr wv"
  shows "\<exists>ys. JsonItem_tree h1 this1 = Inr (Some (DataArray ys)) \<and> length ys = length vs \<and>
     JsonItem_replaceItem h1 this1 (of_nat (length vs)) w = Inr (False, h1, this1) \<and>
     (\<exists>h2. JsonItem_replaceItem h1 this1 (of_nat (length vs - 1)) w = Inr (True, h2, this1) \<and>
           JsonItem_tree h2 this1 = Inr (Some (DataArray (ys[length vs - 1 := wv]))))"
proof -
  let ?N = "length vs"
  have s: "JsonItem_tree h this = Inr None \<and> [] = ([]::DataItem list) \<or>
     JsonItem_tree h this = Inr (Some (DataArray []))"
    using assms(1) by simp
  from append_all_post[OF assms(2) _ s] assms(3) obtain ys where
    ys: "JsonItem_tree h1 this1 = Inr (Some (DataArray ys))" "length ys = ?N"
    by auto
  from tree_content[OF ys(1)] obtain p where
    p: "m_content this1 = Some p" "load h1 p = Inr (DataArray ys)" by blast
  have ri: "JsonItem_replaceItem h1 this1 index w =
     (if unat index < length ys then
        (case store h1 p (DataArray (ys[unat index := wv])) of
           Inl e \<Rightarrow> Inl e
         | Inr h' \<Rightarrow> Inr (True, h' @ [None, Some (ys ! unat index)], this1))
      else Inr (False, h1, this1))" for index
    using p assms(5,6) by (rule replaceItem_array)
  have uN: "unat (of_nat ?N :: 32 word) = ?N" using assms(4) by (rule unat_index)
  have "?N - 1 < 2 ^ 32" using assms(4) by simp
  then have uN1: "unat (of_nat (?N - 1) :: 32 word) = ?N - 1" by (rule unat_index)
  have A: "JsonItem_replaceItem h1 this1 (of_nat ?N) w = Inr (False, h1, this1)"
    using ri[of "of_nat ?N"] uN ys(2) by simp
  have lt: "?N - 1 < length ys" using assms(3) ys(2) by (cases vs) auto
  from store_exists[OF p(2)] obtain h' where
    h': "store h1 p (DataArray (ys[?N - 1 := wv])) = Inr h'" by blast
  have B: "JsonItem_replaceItem h1 this1 (of_nat (?N - 1)) w =
     Inr (True, h' @ [None, Some (ys ! (?N - 1))], this1)"
    using ri[of "of_nat (?N - 1)"] uN1 lt h' by simp
  have l: "load h' p = Inr (DataArray (ys[?N - 1 := wv]))" using h' by (rule load_store_same)
  then have "ptr_root p < length h'" by (rule load_Inr_root)
  then have "load (h' @ [None, Some (ys ! (?N - 1))]) p = Inr (DataArray (ys[?N - 1 := wv]))"
    using l by (simp add: load_append_old)
  then have C: "JsonItem_tree (h' @ [None, Some (ys ! (?N - 1))]) this1 =
     Inr (Some (DataArray (ys[?N - 1 := wv])))"
    using p(1) by (simp add: JsonItem_tree_def)
  from ys A B C show ?thesis by blast
qed

theorem replaceItem_checks_array_bounds_witness:
  "\<exists>ys. JsonItem_tree
          [Some (DataValue (IntValue 1)), Some (DataValue (IntValue 2)),
           Some (DataArray [DataValue (IntValue 1), DataValue (IntValue 1)]), None, None]
          \<lparr>m_content = Some (Ptr 2 []), m_deletable = True\<rparr> = Inr (Some (DataArray ys)) \<and>
     length ys = Suc (Suc 0) \<and>
     JsonItem_replaceItem
          [Some (DataValue (IntValue 1)), Some (DataValue (IntValue 2)),
           Some (DataArray [DataValue (IntValue 1), DataValue (IntValue 1)]), None, None]
          \<lparr>m_content = Some (Ptr 2 []), m_deletable = True\<rparr> 2
          \<lparr>m_content = Some (Ptr 1 []), m_deletable = True\<rparr> =
       Inr (False,
          [Some (DataValue (IntValue 1)), Some (DataValue (IntValue 2)),
           Some (DataArray [DataValue (IntValue 1), DataValue (IntValue 1)]), None, None],
          \<lparr>m_content = Some (Ptr 2 []), m_deletable = True\<rparr>) \<and>
     (\<exists>h2. JsonItem_replaceItem
          [Some (DataValue (IntValue 1)), Some (DataValue (IntValue 2)),
           Some (DataArray [DataValue (IntValue 1), DataValue (IntValue 1)]), None, None]
          \<lparr>m_content = Some (Ptr 2 []), m_deletable = True\<rparr> 1
          \<lparr>m_content = Some (Ptr 1 []), m_deletable = True\<rparr> =
        Inr (True, h2, \<lparr>m_content = Some (Ptr 2 []), m_deletable = True\<rparr>) \<and>
        JsonItem_tree h2 \<lparr>m_content = Some (Ptr 2 []), m_deletable = True\<rparr> =
          Inr (Some (DataArray (ys[1 := DataValue (IntValue 2)]))))"
proof -
  let ?h = "[Some (DataValue (IntValue 1)), Some (DataValue (IntValue 2))]"
  let ?x = "\<lparr>m_content = Some (Ptr 0 []), m_deletable = True\<rparr>"
  let ?h1 = "[Some (DataValue (IntValue 1)), Some (DataValue (IntValue 2)),
           Some (DataArray [DataValue (IntValue 1), DataValue (IntValue 1)]), None, None]"
  have t: "JsonItem_tree ?h JsonItem_ctor = Inr None \<or>
           JsonItem_tree ?h JsonItem_ctor = Inr (Some (DataArray []))"
    by (simp add: JsonItem_tree_def JsonItem_ctor_def JsonItem_members_def)
  have a: "append_all ?h JsonItem_ctor [?x, ?x] =
     Inr (replicate (length [?x, ?x]) True, ?h1, \<lparr>m_content = Some (Ptr 2 []), m_deletable = True\<rparr>)"
    by (simp add: JsonItem_append_def JsonItem_ctor_def JsonItem_members_def materialize_def
        alloc_def load_def DataItem_copy_def DataArray_append_def take_root_def store_def
        numeral_2_eq_2)
  have lw: "load ?h1 (Ptr 1 []) = Inr (DataValue (IntValue 2))" by (simp add: load_def)
  show ?thesis
    using replaceItem_checks_array_bounds[OF t a _ _ _ lw,
        of "\<lparr>m_content = Some (Ptr 1 []), m_deletable = True\<rparr>"]
    by simp
qed

subsection \<open>What a mutation leaves alone\<close>

lemma unchanged_except_refl: "unchanged_except a h h"
  by (simp add: unchanged_except_def)

lemma unchanged_except_trans:
  "unchanged_except a h h1 \<Longrightarrow> unchanged_except a h1 h2 \<Longrightarrow> unchanged_except a h h2"
  by (auto simp: unchanged_except_def)

lemma unchanged_except_append: "unchanged_except a h (h @ xs)"
  by (simp add: unchanged_except_def nth_append)

lemma unchanged_except_load:
  "unchanged_except a h h' \<Longrightarrow> ptr_root p \<noteq> a \<Longrightarrow> ptr_root p < length h \<Longrightarrow>
   load h' p = load h p"
  by (simp add: unchanged_except_def load_def)

lemma store_unchanged:
  "store h p n = Inr h' \<Longrightarrow> unchanged_except (ptr_root p) h h'"
  using store_frame[of h p n h'] by (simp add: unchanged_except_def)

lemma take_root_fresh:
  "take_root h q = Inr (c, h1) \<Longrightarrow> length h1 = length h \<and> (\<forall>i. i \<noteq> ptr_root q \<longrightarrow> h1 ! i = h ! i)"
  by (auto simp: take_root_def split: if_splits option.splits)

lemma DataObject_insert_frame:
  assumes "DataObject_insert h p key q force = Inr (b, h')"
  shows "length h' = length h \<and> (\<forall>i. i \<noteq> ptr_root p \<and> i \<noteq> ptr_root q \<longrightarrow> h' ! i = h ! i)"
proof -
  from assms consider "h' = h"
    | c h1 n where "take_root h q = Inr (c, h1)" "store h1 p n = Inr h'"
    by (auto simp: DataObject_insert_def split: sum.splits option.splits if_splits)
  then show ?thesis
  proof cases
    case 1
    then show ?thesis by simp
  next
    case 2
    from take_root_fresh[OF 2(1)] store_frame[OF 2(2)] show ?thesis by auto
  qed
qed

lemma DataArray_append_frame:
  assumes "DataArray_append h p q = Inr (b, h')"
  shows "length h' = length h \<and> (\<forall>i. i \<noteq> ptr_root p \<and> i \<noteq> ptr_root q \<longrightarrow> h' ! i = h ! i)"
proof -
  from assms obtain c h1 n where "take_root h q = Inr (c, h1)" "store h1 p n = Inr h'"
    by (auto simp: DataArray_append_def split: sum.splits option.splits if_splits)
  with take_root_fresh[of h q c h1] store_frame[of h1 p n h'] show ?thesis by auto
qed

lemma DataArray_assign_frame:
  assumes "DataArray_assign h p i q = Inr h'"
  shows "length h \<le> length h' \<and>
         (\<forall>j<length h. j \<noteq> ptr_root p \<and> j \<noteq> ptr_root q \<longrightarrow> h' ! j = h ! j)"
proof -
  from assms obtain c h1 n h2 x where s: "take_root h q = Inr (c, h1)" "store h1 p n = Inr h2"
    "h' = h2 @ [x]"
    by (auto simp: DataArray_assign_def split: sum.splits option.splits if_splits)
  from take_root_fresh[OF s(1)] store_frame[OF s(2)] s(3) show ?thesis
    by (auto simp: nth_append)
qed

lemma DataItem_remove_frame:
  assumes "DataItem_remove h p s = Inr (b, h')"
  shows "unchanged_except (ptr_root p) h h'"
proof -
  from assms consider "h' = h" | n where "store h p n = Inr h'"
    by (auto simp: DataItem_remove_def split: sum.splits option.splits)
  then show ?thesis
    by cases (auto simp: unchanged_except_refl store_unchanged)
qed

lemma copy_result:
  "DataItem_copy h pv = Inr (h2, q) \<Longrightarrow> \<exists>c. h2 = h @ [Some c] \<and> q = Ptr (length h) []"
  by (auto simp: DataItem_copy_def alloc_def split: sum.splits)

lemma insert_frame:
  assumes "m_content this = Some p" "JsonItem_insert h this key v force = Inr (b, h', this')"
  shows "this' = this \<and> unchanged_except (ptr_root p) h h'"
proof -
  from assms consider "h' = h" "this' = this"
    | pv h2 q where "DataItem_copy h pv = Inr (h2, q)"
        "DataObject_insert h2 p key q force = Inr (b, h')" "this' = this"
    by (auto simp: JsonItem_insert_def materialize_present
        split: option.splits if_splits sum.splits)
  then show ?thesis
  proof cases
    case 1
    then show ?thesis by (simp add: unchanged_except_refl)
  next
    case 2
    from copy_result[OF 2(1)] obtain c where c: "h2 = h @ [Some c]" "q = Ptr (length h) []"
      by blast
    from DataObject_insert_frame[OF 2(2)] c 2(3) show ?thesis
      by (auto simp: unchanged_except_def nth_append)
  qed
qed

lemma append_frame:
  assumes "m_content this = Some p" "JsonItem_append h this v = Inr (b, h', this')"
  shows "this' = this \<and> unchanged_except (ptr_root p) h h'"
proof -
  from assms consider "h' = h" "this' = this"
    | pv h2 q where "DataItem_copy h pv = Inr (h2, q)"
        "DataArray_append h2 p q = Inr (b, h')" "this' = this"
    by (auto simp: JsonItem_append_def materialize_present
        split: option.splits if_splits sum.splits)
  then show ?thesis
  proof cases
    case 1
    then show ?thesis by (simp add: unchanged_except_refl)
  next
    case 2
    from copy_result[OF 2(1)] obtain c where c: "h2 = h @ [Some c]" "q = Ptr (length h) []"
      by blast
    from DataArray_append_frame[OF 2(2)] c 2(3) show ?thesis
      by (auto simp: unchanged_except_def nth_append)
  qed
qed

lemma replaceItem_frame:
  assumes "m_content this = Some p" "JsonItem_replaceItem h this index v = Inr (b, h', this')"
  shows "this' = this \<and> unchanged_except (ptr_root p) h h'"
proof -
  from assms consider "h' = h" "this' = this"
    | pv h2 q where "DataItem_copy h pv = Inr (h2, q)"
        "DataArray_assign h2 p (unat index) q = Inr h'" "this' = this"
    by (auto simp: JsonItem_replaceItem_def materialize_present
        split: option.splits if_splits sum.splits)
  then show ?thesis
  proof cases
    case 1
    then show ?thesis by (simp add: unchanged_except_refl)
  next
    case 2
    from copy_result[OF 2(1)] obtain c where c: "h2 = h @ [Some c]" "q = Ptr (length h) []"
      by blast
    from DataArray_assign_frame[OF 2(2)] c 2(3) show ?thesis
      by (auto simp: unchanged_except_def nth_append)
  qed
qed

lemma setValue_frame:
  assumes "m_content this = Some p" "JsonItem_setValue ops setter h this = Inr (b, h', this')"
  shows "this' = this \<and> unchanged_except (ptr_root p) h h'"
proof -
  from assms consider "h' = h" "this' = this" | n where "store h p n = Inr h'" "this' = this"
    by (auto simp: JsonItem_setValue_def materialize_present
        split: option.splits if_splits sum.splits)
  then show ?thesis
    by cases (auto simp: unchanged_except_refl store_unchanged)
qed

lemma remove_frame:
  assumes "m_content this = Some p" "JsonItem_remove h this s = Inr (b, h', this')"
  shows "this' = this \<and> unchanged_except (ptr_root p) h h'"
  using assms
  by (auto simp: JsonItem_remove_def DataItem_remove_frame split: sum.splits)

lemma mutate_frame:
  assumes "m_content this = Some p" "mutate ops h this m = Inr (b, h', this')"
  shows "this' = this \<and> unchanged_except (ptr_root p) h h'"
proof (cases m)
  case (Insert key v force)
  with assms show ?thesis by (simp add: insert_frame)
next
  case (Append v)
  with assms show ?thesis by (simp add: append_frame)
next
  case (ReplaceItem index v)
  with assms show ?thesis by (simp add: replaceItem_frame)
next
  case (SetValueString s)
  with assms show ?thesis by (simp add: JsonItem_setValue_string_def setValue_frame)
next
  case (SetValueInt i)
  with assms show ?thesis by (simp add: JsonItem_setValue_int_def setValue_frame)
next
  case (SetValueFloat f)
  with assms show ?thesis by (simp add: JsonItem_setValue_float_def setValue_frame)
next
  case (RemoveKey key)
  with assms show ?thesis by (simp add: JsonItem_remove_key_def remove_frame)
next
  case (RemoveIndex index)
  with assms show ?thesis by (simp add: JsonItem_remove_index_def remove_frame)
qed

lemma mutate_all_frame:
  "m_content this = Some p \<Longrightarrow> mutate_all ops h this ms = Inr (h', this') \<Longrightarrow>
   this' = this \<and> unchanged_except (ptr_root p) h h'"
proof (induction ms arbitrary: h)
  case Nil
  then show ?case by (simp add: unchanged_except_refl)
next
  case (Cons m ms)
  from Cons.prems(2) obtain b h1 this1 where
    s: "mutate ops h this m = Inr (b, h1, this1)" "mutate_all ops h1 this1 ms = Inr (h', this')"
    by (auto split: sum.splits)
  from mutate_frame[OF Cons.prems(1) s(1)] have f1: "this1 = this"
    "unchanged_except (ptr_root p) h h1" by auto
  from Cons.IH[OF Cons.prems(1) s(2)[unfolded f1(1)]] f1(2) show ?case
    by (auto intro: unchanged_except_trans)
qed

text \<open>C1: the handle made by the copy constructor holds a tree equal to the source's, at
  an address of its own; whatever run of \<^verbatim>\<open>insert\<close>, \<^verbatim>\<open>append\<close>, \<^verbatim>\<open>replaceItem\<close>,
  \<^verbatim>\<open>setValue\<close> and \<^verbatim>\<open>remove\<close> is applied to the copy, the tree of the source stays as it
  was, and whatever run is applied to the source, the tree of the copy stays as it
  was.\<close>

theorem copy_is_independent:
  assumes "JsonItem_copy_ctor h T = Inr (h1, T2)"
  shows "(\<exists>n. JsonItem_tree h T = Inr (Some n)) \<and>
    JsonItem_tree h1 T2 = JsonItem_tree h T \<and>
    JsonItem_tree h1 T = JsonItem_tree h T \<and>
    m_deletable T2 \<and>
    (\<forall>ms h2 T2'. mutate_all ops h1 T2 ms = Inr (h2, T2') \<longrightarrow>
        JsonItem_tree h2 T = JsonItem_tree h T) \<and>
    (\<forall>ms h2 T'. mutate_all ops h1 T ms = Inr (h2, T') \<longrightarrow>
        JsonItem_tree h2 T2 = JsonItem_tree h1 T2)"
proof -
  from assms obtain p n where p: "m_content T = Some p" "load h p = Inr n"
    and h1: "h1 = h @ [Some n]"
    and T2: "T2 = JsonItem_members\<lparr>m_content := Some (Ptr (length h) [])\<rparr>"
    by (auto simp: JsonItem_copy_ctor_def DataItem_copy_def alloc_def
        split: option.splits sum.splits)
  let ?q = "Ptr (length h) []"
  have r: "ptr_root p < length h" using p(2) by (rule load_Inr_root)
  have c2: "m_content T2 = Some ?q" by (simp add: T2)
  have lq: "load h1 ?q = Inr n" unfolding h1 by (rule load_alloc_new)
  have lp: "load h1 p = Inr n" unfolding h1 using p(2) r by (simp add: load_append_old)
  have t0: "JsonItem_tree h T = Inr (Some n)" using p by (simp add: JsonItem_tree_def)
  have t1: "JsonItem_tree h1 T2 = Inr (Some n)" using c2 lq by (simp add: JsonItem_tree_def)
  have t2: "JsonItem_tree h1 T = Inr (Some n)" using p(1) lp by (simp add: JsonItem_tree_def)
  have d: "m_deletable T2" by (simp add: T2 JsonItem_members_def)
  have A: "JsonItem_tree h2 T = JsonItem_tree h T"
    if "mutate_all ops h1 T2 ms = Inr (h2, T2')" for ms h2 T2'
  proof -
    from mutate_all_frame[OF c2 that] have u: "unchanged_except (length h) h1 h2" by simp
    have "load h2 p = load h1 p"
      using u by (rule unchanged_except_load) (use r h1 in auto)
    with lp p(1) t0 show ?thesis by (simp add: JsonItem_tree_def)
  qed
  have B: "JsonItem_tree h2 T2 = JsonItem_tree h1 T2"
    if "mutate_all ops h1 T ms = Inr (h2, T')" for ms h2 T'
  proof -
    from mutate_all_frame[OF p(1) that] have u: "unchanged_except (ptr_root p) h1 h2" by simp
    have "load h2 ?q = load h1 ?q"
      using u by (rule unchanged_except_load) (use r h1 in auto)
    with c2 show ?thesis by (simp add: JsonItem_tree_def)
  qed
  from t0 t1 t2 d A B show ?thesis by auto
qed

lemma copy_ctor_example:
  "JsonItem_copy_ctor [Some (DataObject [(''a'', DataValue (IntValue 1))])]
      \<lparr>m_content = Some (Ptr 0 []), m_deletable = True\<rparr> =
     Inr ([Some (DataObject [(''a'', DataValue (IntValue 1))]),
           Some (DataObject [(''a'', DataValue (IntValue 1))])],
          \<lparr>m_content = Some (Ptr 1 []), m_deletable = True\<rparr>)"
  by (simp add: JsonItem_copy_ctor_def DataItem_copy_def alloc_def load_def JsonItem_members_def)

lemma mutate_copy_example:
  "mutate_all ops
      [Some (DataObject [(''a'', DataValue (IntValue 1))]),
       Some (DataObject [(''a'', DataValue (IntValue 1))])]
      \<lparr>m_content = Some (Ptr 1 []), m_deletable = True\<rparr>
      [Insert ''b'' \<lparr>m_content = Some (Ptr 0 []), m_deletable = True\<rparr> False,
       SetValueInt 3, RemoveKey ''a''] =
     Inr ([Some (DataObject [(''a'', DataValue (IntValue 1))]),
           Some (DataObject [(''b'', DataObject [(''a'', DataValue (IntValue 1))])]),
           None],
          \<lparr>m_content = Some (Ptr 1 []), m_deletable = True\<rparr>)"
  by (simp add: JsonItem_insert_def materialize_def load_def DataItem_copy_def alloc_def
      DataObject_insert_def take_root_def store_def JsonItem_setValue_int_def
      JsonItem_setValue_def JsonItem_remove_key_def JsonItem_remove_def DataItem_remove_def)

lemma mutate_source_example:
  "mutate_all ops
      [Some (DataObject [(''a'', DataValue (IntValue 1))]),
       Some (DataObject [(''a'', DataValue (IntValue 1))])]
      \<lparr>m_content = Some (Ptr 0 []), m_deletable = True\<rparr>
      [Insert ''a'' \<lparr>m_content = Some (Ptr 1 []), m_deletable = True\<rparr> True] =
     Inr ([Some (DataObject [(''a'', DataObject [(''a'', DataValue (IntValue 1))])]),
           Some (DataObject [(''a'', DataValue (IntValue 1))]),
           None],
          \<lparr>m_content = Some (Ptr 0 []), m_deletable = True\<rparr>)"
  by (simp add: JsonItem_insert_def materialize_def load_def DataItem_copy_def alloc_def
      DataObject_insert_def take_root_def store_def)

theorem copy_is_independent_witness:
  "JsonItem_copy_ctor [Some (DataObject [(''a'', DataValue (IntValue 1))])]
      \<lparr>m_content = Some (Ptr 0 []), m_deletable = True\<rparr> =
     Inr ([Some (DataObject [(''a'', DataValue (IntValue 1))]),
           Some (DataObject [(''a'', DataValue (IntValue 1))])],
          \<lparr>m_content = Some (Ptr 1 []), m_deletable = True\<rparr>) \<and>
   JsonItem_tree
      [Some (DataObject [(''a'', DataValue (IntValue 1))]),
       Some (DataObject [(''b'', DataObject [(''a'', DataValue (IntValue 1))])]),
       None]
      \<lparr>m_content = Some (Ptr 0 []), m_deletable = True\<rparr> =
     Inr (Some (DataObject [(''a'', DataValue (IntValue 1))])) \<and>
   JsonItem_tree
      [Some (DataObject [(''a'', DataValue (IntValue 1))]),
       Some (DataObject [(''b'', DataObject [(''a'', DataValue (IntValue 1))])]),
       None]
      \<lparr>m_content = Some (Ptr 1 []), m_deletable = True\<rparr> =
     Inr (Some (DataObject [(''b'', DataObject [(''a'', DataValue (IntValue 1))])])) \<and>
   JsonItem_tree
      [Some (DataObject [(''a'', DataObject [(''a'', DataValue (IntValue 1))])]),
       Some (DataObject [(''a'', DataValue (IntValue 1))]),
       None]
      \<lparr>m_content = Some (Ptr 1 []), m_deletable = True\<rparr> =
     Inr (Some (DataObject [(''a'', DataValue (IntValue 1))]))"
proof -
  let ?ops = "\<lparr>new_DataValue = StringValue [], setValue_string = (\<lambda>v s. StringValue s),
     setValue_int = (\<lambda>v i. IntValue i), setValue_float = (\<lambda>v f. FloatValue f)\<rparr>"
  note I = copy_is_independent[OF copy_ctor_example, of ?ops]
  from I mutate_copy_example[of ?ops] have a:
    "JsonItem_tree
      [Some (DataObject [(''a'', DataValue (IntValue 1))]),
       Some (DataObject [(''b'', DataObject [(''a'', DataValue (IntValue 1))])]),
       None]
      \<lparr>m_content = Some (Ptr 0 []), m_deletable = True\<rparr> =
     JsonItem_tree [Some (DataObject [(''a'', DataValue (IntValue 1))])]
      \<lparr>m_content = Some (Ptr 0 []), m_deletable = True\<rparr>"
    by blast
  from I mutate_source_example[of ?ops] have b:
    "JsonItem_tree
      [Some (DataObject [(''a'', DataObject [(''a'', DataValue (IntValue 1))])]),
       Some (DataObject [(''a'', DataValue (IntValue 1))]),
       None]
      \<lparr>m_content = Some (Ptr 1 []), m_deletable = True\<rparr> =
     JsonItem_tree
      [Some (DataObject [(''a'', DataValue (IntValue 1))]),
       Some (DataObject [(''a'', DataValue (IntValue 1))])]
      \<lparr>m_content = Some (Ptr 1 []), m_deletable = True\<rparr>"
    by blast
  have c: "JsonItem_tree [Some (DataObject [(''a'', DataValue (IntValue 1))])]
      \<lparr>m_content = Some (Ptr 0 []), m_deletable = True\<rparr> =
      Inr (Some (DataObject [(''a'', DataValue (IntValue 1))]))"
    by (simp add: JsonItem_tree_def load_def)
  have d: "JsonItem_tree
      [Some (DataObject [(''a'', DataValue (IntValue 1))]),
       Some (DataObject [(''a'', DataValue (IntValue 1))])]
      \<lparr>m_content = Some (Ptr 1 []), m_deletable = True\<rparr> =
      Inr (Some (DataObject [(''a'', DataValue (IntValue 1))]))"
    by (simp add: JsonItem_tree_def load_def)
  have e: "JsonItem_tree
      [Some (DataObject [(''a'', DataValue (IntValue 1))]),
       Some (DataObject [(''b'', DataObject [(''a'', DataValue (IntValue 1))])]),
       None]
      \<lparr>m_content = Some (Ptr 1 []), m_deletable = True\<rparr> =
     Inr (Some (DataObject [(''b'', DataObject [(''a'', DataValue (IntValue 1))])]))"
    by (simp add: JsonItem_tree_def load_def)
  from a b c d e copy_ctor_example show ?thesis by simp
qed

end
